theory Spec2Isabelle
  imports Complex_Main "HOL-Library.Word" "HOL-Library.Multiset"
begin

section \<open>VCS capture and scaler units: data model\<close>

text \<open>
  The development embeds the capture unit (\<^verbatim>\<open>src/capture/capture.cpp\<close>) and the parts of
  the scaler unit (\<^verbatim>\<open>src/scaler/scaler.cpp\<close>) that decide the output resolution, the
  colour conversion and the choice of scaling filter. The file-scope statics of
  \<^verbatim>\<open>capture.cpp\<close> become one record that every operation takes and returns. The
  callbacks and the event functions all run under \<^verbatim>\<open>INPUT_OUTPUT_MUTEX\<close> or on the
  pipeline thread, so each operation is modelled as one atomic step.
\<close>

type_synonym u8 = "8 word"
type_synonym u32 = "32 word"

text \<open>
  \<^verbatim>\<open>resolution_s\<close>: the declaration is not among the sources; its fields are unsigned
  and are only compared, multiplied and printed here, so they are natural numbers.
\<close>

record resolution_s =
  w :: nat
  h :: nat
  bpp :: nat

record mode_alias_s =
  "from" :: resolution_s
  to :: resolution_s

record input_color_settings_s =
  bright :: int
  contr :: int
  redBright :: int
  greenBright :: int
  blueBright :: int
  redContr :: int
  greenContr :: int
  blueContr :: int

record input_video_settings_s =
  horScale :: int
  horPos :: int
  verPos :: int
  phase :: int
  blackLevel :: int

text \<open>\<^verbatim>\<open>captured_frame_s\<close>: the pixel buffer is \<open>None\<close> while it is unallocated (null).\<close>

record captured_frame_s =
  r :: resolution_s
  pixels :: "u8 list option"

record mode_params_s =
  r :: resolution_s
  color :: input_color_settings_s
  video :: input_video_settings_s

datatype capture_event_e =
    CEVENT_NONE
  | CEVENT_NEW_FRAME
  | CEVENT_NEW_VIDEO_MODE
  | CEVENT_NO_SIGNAL
  | CEVENT_INVALID_SIGNAL
  | CEVENT_SLEEP
  | CEVENT_UNRECOVERABLE_ERROR

subsection \<open>The capture card behind the RGBEasy API\<close>

text \<open>
  The vendor API is outside the repository. Each call the unit makes is a constructor of
  \<open>rgb_call\<close>; the card records the calls it was sent, answers success or failure through
  \<open>accepts\<close> (the call returned \<^verbatim>\<open>RGBERROR_NO_ERROR\<close>), and a successful setter changes
  the value that the matching getter reports.
\<close>

datatype rgb_call =
    RGBTestCaptureWidth nat
  | RGBSetCaptureWidth nat
  | RGBSetCaptureHeight nat
  | RGBSetOutputSize nat nat
  | RGBSetPhase int
  | RGBSetBlackLevel int
  | RGBSetHorScale int
  | RGBSetHorPosition int
  | RGBSetVerPosition int
  | RGBSetBrightness int
  | RGBSetContrast int
  | RGBSetColourBalance int int int int int int

record rgbeasy =
  accepts :: "rgb_call \<Rightarrow> bool"
  issued :: "rgb_call list"
  capture_width :: nat
  capture_height :: nat
  output_width :: nat
  output_height :: nat
  status_video_settings :: input_video_settings_s
  status_color_settings :: input_color_settings_s
  minimum_video_settings :: input_video_settings_s
  maximum_video_settings :: input_video_settings_s
  default_video_settings :: input_video_settings_s
  default_color_settings :: input_color_settings_s

fun rgb_effect :: "rgb_call \<Rightarrow> rgbeasy \<Rightarrow> rgbeasy" where
  "rgb_effect (RGBTestCaptureWidth n) c = c"
| "rgb_effect (RGBSetCaptureWidth n) c = c\<lparr>capture_width := n\<rparr>"
| "rgb_effect (RGBSetCaptureHeight n) c = c\<lparr>capture_height := n\<rparr>"
| "rgb_effect (RGBSetOutputSize n m) c = c\<lparr>output_width := n, output_height := m\<rparr>"
| "rgb_effect (RGBSetPhase v) c =
     c\<lparr>status_video_settings := (status_video_settings c)\<lparr>phase := v\<rparr>\<rparr>"
| "rgb_effect (RGBSetBlackLevel v) c =
     c\<lparr>status_video_settings := (status_video_settings c)\<lparr>blackLevel := v\<rparr>\<rparr>"
| "rgb_effect (RGBSetHorScale v) c =
     c\<lparr>status_video_settings := (status_video_settings c)\<lparr>horScale := v\<rparr>\<rparr>"
| "rgb_effect (RGBSetHorPosition v) c =
     c\<lparr>status_video_settings := (status_video_settings c)\<lparr>horPos := v\<rparr>\<rparr>"
| "rgb_effect (RGBSetVerPosition v) c =
     c\<lparr>status_video_settings := (status_video_settings c)\<lparr>verPos := v\<rparr>\<rparr>"
| "rgb_effect (RGBSetBrightness v) c =
     c\<lparr>status_color_settings := (status_color_settings c)\<lparr>bright := v\<rparr>\<rparr>"
| "rgb_effect (RGBSetContrast v) c =
     c\<lparr>status_color_settings := (status_color_settings c)\<lparr>contr := v\<rparr>\<rparr>"
| "rgb_effect (RGBSetColourBalance rb gb bb rc gc bc) c =
     c\<lparr>status_color_settings := (status_color_settings c)\<lparr>redBright := rb, greenBright := gb,
        blueBright := bb, redContr := rc, greenContr := gc, blueContr := bc\<rparr>\<rparr>"

text \<open>One API call: the result of \<^verbatim>\<open>apicall_succeeds\<close> and the card afterwards.\<close>

definition rgb :: "rgb_call \<Rightarrow> rgbeasy \<Rightarrow> bool \<times> rgbeasy" where
  "rgb call c =
     (if accepts c call then (True, rgb_effect call (c\<lparr>issued := issued c @ [call]\<rparr>))
      else (False, c\<lparr>issued := issued c @ [call]\<rparr>))"

subsection \<open>Calls into units that are not modelled\<close>

text \<open>
  Calls to the display, to \<^verbatim>\<open>main\<close> and to the propagation unit are recorded in the
  order they are made. Of the two strings of \<^verbatim>\<open>kd_show_headless_error_message\<close> the
  title is kept.
\<close>

datatype outcall =
    kd_update_gui_video_params
  | kd_signal_new_known_mode resolution_s
  | kd_clear_known_aliases
  | kd_signal_new_known_alias mode_alias_s
  | kd_show_headless_error_message string
  | kmain_change_capture_input_resolution resolution_s
  | kpropagate_new_input_video_mode

subsection \<open>The statics of the capture unit\<close>

record capture =
  IS_ALIASED_INPUT_RESOLUTION :: bool
  SIGNAL_WOKE_UP :: bool
  SKIP_NEXT_NUM_FRAMES :: u32
  KNOWN_MODES :: "mode_params_s list"
  CAPTURE_COLOR_DEPTH :: nat
  CNT_FRAMES_PROCESSED :: u32
  CNT_FRAMES_CAPTURED :: u32
  CNT_FRAMES_SKIPPED :: u32
  RECEIVING_A_SIGNAL :: bool
  UNRECOVERABLE_CAPTURE_ERROR :: bool
  SIGNAL_IS_INVALID :: bool
  SIGNAL_WAS_LOST :: bool
  SIGNAL_BECAME_INVALID :: bool
  FRAME_BUFFER :: captured_frame_s
  RECEIVED_NEW_VIDEO_MODE :: bool
  ALIASES :: "mode_alias_s list"
  PROGRAM_EXIT_REQUESTED :: bool
  card :: rgbeasy
  outcalls :: "outcall list"

definition MAX_BIT_DEPTH :: nat where
  "MAX_BIT_DEPTH = 32"

text \<open>
  The values the statics are initialised with in \<^verbatim>\<open>capture.cpp\<close>, around a given card.
  \<^verbatim>\<open>SKIP_NEXT_NUM_FRAMES\<close> is initialised with \<^verbatim>\<open>false\<close>, that is 0, and the frame
  buffer is unallocated until \<^verbatim>\<open>kc_initialize_capturer\<close> runs.
\<close>

definition initial_capture :: "rgbeasy \<Rightarrow> capture" where
  "initial_capture c =
     \<lparr>IS_ALIASED_INPUT_RESOLUTION = False,
      SIGNAL_WOKE_UP = False,
      SKIP_NEXT_NUM_FRAMES = 0,
      KNOWN_MODES = [],
      CAPTURE_COLOR_DEPTH = 32,
      CNT_FRAMES_PROCESSED = 0,
      CNT_FRAMES_CAPTURED = 0,
      CNT_FRAMES_SKIPPED = 0,
      RECEIVING_A_SIGNAL = True,
      UNRECOVERABLE_CAPTURE_ERROR = False,
      SIGNAL_IS_INVALID = False,
      SIGNAL_WAS_LOST = False,
      SIGNAL_BECAME_INVALID = False,
      FRAME_BUFFER = \<lparr>captured_frame_s.r = \<lparr>w = 0, h = 0, bpp = 0\<rparr>, pixels = None\<rparr>,
      RECEIVED_NEW_VIDEO_MODE = False,
      ALIASES = [],
      PROGRAM_EXIT_REQUESTED = False,
      card = c,
      outcalls = []\<rparr>"

section \<open>Frame hand-off\<close>

text \<open>
  \<^verbatim>\<open>LPBITMAPINFOHEADER\<close>: the three fields the callback reads. The height may be negative
  (a top-down bitmap); the callback takes its absolute value.
\<close>

record bitmapinfoheader =
  biWidth :: nat
  biHeight :: int
  biBitCount :: nat

text \<open>
  Modelled from the spec: \<^verbatim>\<open>heap_bytes_s::up_to\<close> (\<^verbatim>\<open>common/memory.h\<close> is missing from
  the sources). The spec has the copy bounded by the capacity of the slot.
\<close>

definition up_to :: "u8 list \<Rightarrow> nat \<Rightarrow> nat" where
  "up_to buf n = min n (length buf)"

text \<open>
  \<^verbatim>\<open>rgbeasy_callbacks_n::frame_captured\<close>. The first test is the lock-free drop path: it
  returns before the label \<^verbatim>\<open>done\<close>, so only the skip counter moves. Every other path
  reaches \<^verbatim>\<open>done\<close> and increments the capture counter. \<open>frameInfo\<close> and \<open>frameData\<close> are
  \<open>None\<close> for null pointers.
\<close>

definition frame_captured ::
  "bitmapinfoheader option \<Rightarrow> u8 list option \<Rightarrow> capture \<Rightarrow> capture" where
  "frame_captured frameInfo frameData s =
     (if CNT_FRAMES_CAPTURED s \<noteq> CNT_FRAMES_PROCESSED s
      then s\<lparr>CNT_FRAMES_SKIPPED := CNT_FRAMES_SKIPPED s + 1\<rparr>
      else
        let s' =
          (if PROGRAM_EXIT_REQUESTED s then s
           else case frameData of
             None \<Rightarrow> s
           | Some dat \<Rightarrow>
              (case frameInfo of
                 None \<Rightarrow> s
               | Some info \<Rightarrow>
                  (case pixels (FRAME_BUFFER s) of
                     None \<Rightarrow> s
                   | Some buf \<Rightarrow>
                      if biBitCount info > MAX_BIT_DEPTH then s
                      else
                        let res = \<lparr>w = biWidth info, h = nat \<bar>biHeight info\<bar>,
                                   bpp = biBitCount info\<rparr>;
                            n = up_to buf (w res * h res * (bpp res div 8))
                        in s\<lparr>FRAME_BUFFER :=
                              \<lparr>captured_frame_s.r = res,
                               pixels = Some (take n dat @ drop n buf)\<rparr>\<rparr>)))
        in s'\<lparr>CNT_FRAMES_CAPTURED := CNT_FRAMES_CAPTURED s' + 1\<rparr>)"

text \<open>\<^verbatim>\<open>kc_mark_frame_buffer_as_processed\<close>.\<close>

definition kc_mark_frame_buffer_as_processed :: "capture \<Rightarrow> capture" where
  "kc_mark_frame_buffer_as_processed s =
     (let s1 = s\<lparr>CNT_FRAMES_PROCESSED := CNT_FRAMES_CAPTURED s\<rparr>
      in if SKIP_NEXT_NUM_FRAMES s1 > 0
         then s1\<lparr>SKIP_NEXT_NUM_FRAMES := SKIP_NEXT_NUM_FRAMES s1 - 1\<rparr>
         else s1)"

text \<open>\<^verbatim>\<open>kc_should_skip_next_frame\<close>.\<close>

definition kc_should_skip_next_frame :: "capture \<Rightarrow> bool" where
  "kc_should_skip_next_frame s = (SKIP_NEXT_NUM_FRAMES s > 0)"

text \<open>A card that accepts every call, reporting a capture resolution of 800 x 600.\<close>

definition zero_video :: input_video_settings_s where
  "zero_video = \<lparr>horScale = 0, horPos = 0, verPos = 0, phase = 0, blackLevel = 0\<rparr>"

definition zero_color :: input_color_settings_s where
  "zero_color = \<lparr>bright = 0, contr = 0, redBright = 0, greenBright = 0, blueBright = 0,
     redContr = 0, greenContr = 0, blueContr = 0\<rparr>"

definition card_800x600 :: rgbeasy where
  "card_800x600 =
     \<lparr>accepts = (\<lambda>_. True), issued = [],
      capture_width = 800, capture_height = 600,
      output_width = 800, output_height = 600,
      status_video_settings = zero_video,
      status_color_settings = zero_color,
      minimum_video_settings = zero_video,
      maximum_video_settings = zero_video\<lparr>horScale := 4095, horPos := 1200, verPos := 1200,
        phase := 31, blackLevel := 255\<rparr>,
      default_video_settings = zero_video,
      default_color_settings = zero_color\<rparr>"

section \<open>Signal events\<close>

text \<open>
  The remaining callbacks. \<^verbatim>\<open>video_mode_changed\<close> and \<^verbatim>\<open>invalid_signal\<close> ignore the
  event once the program is exiting; \<^verbatim>\<open>no_signal\<close> and \<^verbatim>\<open>error\<close> have no such test.
  The pass-through calls \<^verbatim>\<open>RGBInvalidSignal\<close> and \<^verbatim>\<open>RGBNoSignal\<close> change nothing the
  unit reads.
\<close>

definition video_mode_changed :: "capture \<Rightarrow> capture" where
  "video_mode_changed s =
     (if PROGRAM_EXIT_REQUESTED s then s
      else s\<lparr>SIGNAL_WOKE_UP := \<not> RECEIVING_A_SIGNAL s,
              RECEIVED_NEW_VIDEO_MODE := True,
              SIGNAL_IS_INVALID := False\<rparr>)"

definition invalid_signal :: "capture \<Rightarrow> capture" where
  "invalid_signal s =
     (if PROGRAM_EXIT_REQUESTED s then s else s\<lparr>SIGNAL_IS_INVALID := True\<rparr>)"

definition no_signal :: "capture \<Rightarrow> capture" where
  "no_signal s = s\<lparr>SIGNAL_WAS_LOST := True\<rparr>"

definition error_callback :: "capture \<Rightarrow> capture" where
  "error_callback s = s\<lparr>UNRECOVERABLE_CAPTURE_ERROR := True\<rparr>"

text \<open>\<^verbatim>\<open>kc_no_signal\<close> and \<^verbatim>\<open>kc_is_invalid_signal\<close>.\<close>

definition kc_no_signal :: "capture \<Rightarrow> bool" where
  "kc_no_signal s = (\<not> RECEIVING_A_SIGNAL s)"

definition kc_is_invalid_signal :: "capture \<Rightarrow> bool" where
  "kc_is_invalid_signal s = SIGNAL_IS_INVALID s"

text \<open>
  \<^verbatim>\<open>kc_get_next_capture_event\<close>: the event and the statics afterwards. The branch for a
  new video mode writes \<^verbatim>\<open>RECEIVING_A_SIGNAL\<close> and \<^verbatim>\<open>SIGNAL_IS_INVALID\<close> only.
\<close>

definition kc_get_next_capture_event :: "capture \<Rightarrow> capture_event_e \<times> capture" where
  "kc_get_next_capture_event s =
     (if UNRECOVERABLE_CAPTURE_ERROR s then (CEVENT_UNRECOVERABLE_ERROR, s)
      else if RECEIVED_NEW_VIDEO_MODE s then
        (CEVENT_NEW_VIDEO_MODE, s\<lparr>RECEIVING_A_SIGNAL := True, SIGNAL_IS_INVALID := False\<rparr>)
      else if SIGNAL_WAS_LOST s then
        (CEVENT_NO_SIGNAL, s\<lparr>RECEIVING_A_SIGNAL := False, SIGNAL_WAS_LOST := False\<rparr>)
      else if \<not> RECEIVING_A_SIGNAL s then (CEVENT_SLEEP, s)
      else if SIGNAL_BECAME_INVALID s then
        (CEVENT_INVALID_SIGNAL,
         s\<lparr>RECEIVING_A_SIGNAL := False, SIGNAL_IS_INVALID := True,
           SIGNAL_BECAME_INVALID := False\<rparr>)
      else if SIGNAL_IS_INVALID s then (CEVENT_SLEEP, s)
      else if CNT_FRAMES_CAPTURED s \<noteq> CNT_FRAMES_PROCESSED s then (CEVENT_NEW_FRAME, s)
      else (CEVENT_NONE, s))"

text \<open>
  The priority list as the specification words it: a table of conditions on the statics
  before the call, read top to bottom, the first condition that holds deciding the event,
  and \<open>CEVENT_NONE\<close> when none holds.
\<close>

definition spec_priority :: "((capture \<Rightarrow> bool) \<times> capture_event_e) list" where
  "spec_priority =
     [(UNRECOVERABLE_CAPTURE_ERROR, CEVENT_UNRECOVERABLE_ERROR),
      (RECEIVED_NEW_VIDEO_MODE, CEVENT_NEW_VIDEO_MODE),
      (SIGNAL_WAS_LOST, CEVENT_NO_SIGNAL),
      (kc_no_signal, CEVENT_SLEEP),
      (SIGNAL_BECAME_INVALID, CEVENT_INVALID_SIGNAL),
      (kc_is_invalid_signal, CEVENT_SLEEP),
      (\<lambda>s. CNT_FRAMES_CAPTURED s \<noteq> CNT_FRAMES_PROCESSED s, CEVENT_NEW_FRAME)]"

fun first_match :: "(('s \<Rightarrow> bool) \<times> 'e) list \<Rightarrow> 'e \<Rightarrow> 's \<Rightarrow> 'e" where
  "first_match [] d s = d"
| "first_match ((c, e) # rest) d s = (if c s then e else first_match rest d s)"

section \<open>Resolutions, aliases and mode parameters\<close>

text \<open>
  \<^verbatim>\<open>capture_hardware_s::status_s::capture_resolution\<close>: width and height as the card
  reports them, the depth from \<^verbatim>\<open>CAPTURE_COLOR_DEPTH\<close>.
\<close>

definition capture_resolution :: "capture \<Rightarrow> resolution_s" where
  "capture_resolution s =
     \<lparr>w = capture_width (card s), h = capture_height (card s), bpp = CAPTURE_COLOR_DEPTH s\<rparr>"

text \<open>
  \<^verbatim>\<open>kc_force_capture_input_resolution\<close>. A request for the resolution the card already
  has is refused before any call is made. The three setters are joined by \<^verbatim>\<open>||\<close>, so a
  failing one ends the sequence.
\<close>

definition kc_force_capture_input_resolution :: "resolution_s \<Rightarrow> capture \<Rightarrow> bool \<times> capture" where
  "kc_force_capture_input_resolution res s =
     (let currentInputRes = capture_resolution s in
      if w res = w currentInputRes \<and> h res = h currentInputRes then (False, s)
      else
        case rgb (RGBTestCaptureWidth (w res)) (card s) of (ok0, c0) \<Rightarrow>
        if \<not> ok0 then (False, s\<lparr>card := c0\<rparr>)
        else
          case rgb (RGBSetCaptureWidth (w res)) c0 of (ok1, c1) \<Rightarrow>
          if \<not> ok1 then (False, s\<lparr>card := c1\<rparr>)
          else
            case rgb (RGBSetCaptureHeight (h res)) c1 of (ok2, c2) \<Rightarrow>
            if \<not> ok2 then (False, s\<lparr>card := c2\<rparr>)
            else
              case rgb (RGBSetOutputSize (w res) (h res)) c2 of (ok3, c3) \<Rightarrow>
              if \<not> ok3 then (False, s\<lparr>card := c3\<rparr>)
              else if output_width c3 \<noteq> w res \<or> output_height c3 \<noteq> h res
              then (False, s\<lparr>card := c3\<rparr>)
              else (True, s\<lparr>card := c3,
                             SKIP_NEXT_NUM_FRAMES := SKIP_NEXT_NUM_FRAMES s + 2\<rparr>))"

text \<open>
  \<^verbatim>\<open>kc_alias_resolution_index\<close>: the loop runs from index 0 and returns at the first
  alias whose source matches; \<open>-1\<close> when none does.
\<close>

fun alias_index_from :: "mode_alias_s list \<Rightarrow> nat \<Rightarrow> resolution_s \<Rightarrow> int" where
  "alias_index_from [] i res = - 1"
| "alias_index_from (a # as) i res =
     (if w (from a) = w res \<and> h (from a) = h res then int i
      else alias_index_from as (Suc i) res)"

definition kc_alias_resolution_index :: "resolution_s \<Rightarrow> capture \<Rightarrow> int" where
  "kc_alias_resolution_index res s = alias_index_from (ALIASES s) 0 res"

text \<open>\<^verbatim>\<open>kc_mode_params_for_resolution\<close>: the first known mode of that size, else defaults.\<close>

definition kc_mode_params_for_resolution :: "resolution_s \<Rightarrow> capture \<Rightarrow> mode_params_s" where
  "kc_mode_params_for_resolution res s =
     (case find (\<lambda>m. w (r m) = w res \<and> h (r m) = h res) (KNOWN_MODES s) of
        Some m \<Rightarrow> m
      | None \<Rightarrow> \<lparr>r = res, color = default_color_settings (card s),
                 video = default_video_settings (card s)\<rparr>)"

text \<open>
  The calls \<^verbatim>\<open>kc_apply_mode_parameters\<close> makes for a set of parameters, in order. Their
  results are not looked at.
\<close>

definition mode_parameter_calls :: "mode_params_s \<Rightarrow> rgb_call list" where
  "mode_parameter_calls p =
     [RGBSetPhase (phase (video p)),
      RGBSetBlackLevel (blackLevel (video p)),
      RGBSetHorScale (horScale (video p)),
      RGBSetHorPosition (horPos (video p)),
      RGBSetVerPosition (verPos (video p)),
      RGBSetBrightness (bright (color p)),
      RGBSetContrast (contr (color p)),
      RGBSetColourBalance (redBright (color p)) (greenBright (color p)) (blueBright (color p))
        (redContr (color p)) (greenContr (color p)) (blueContr (color p))]"

definition rgb_all :: "rgb_call list \<Rightarrow> rgbeasy \<Rightarrow> rgbeasy" where
  "rgb_all calls c = foldl (\<lambda>c' call. snd (rgb call c')) c calls"

definition kc_apply_mode_parameters :: "resolution_s \<Rightarrow> capture \<Rightarrow> bool \<times> capture" where
  "kc_apply_mode_parameters res s =
     (let p = kc_mode_params_for_resolution res s
      in (True, s\<lparr>card := rgb_all (mode_parameter_calls p) (card s)\<rparr>))"

text \<open>
  \<^verbatim>\<open>aliased\<close>: the resolution whose parameters are to be applied. The call that is to
  switch the card is made with the argument \<open>res\<close>, the resolution that was passed in.
\<close>

definition aliased :: "resolution_s \<Rightarrow> capture \<Rightarrow> resolution_s \<times> capture" where
  "aliased res s =
     (let aliasIdx = kc_alias_resolution_index res s in
      if aliasIdx \<ge> 0 then
        (case kc_force_capture_input_resolution res s of
           (forced, s1) \<Rightarrow>
             if \<not> forced then (res, s1\<lparr>IS_ALIASED_INPUT_RESOLUTION := False\<rparr>)
             else (to (ALIASES s ! nat aliasIdx), s1\<lparr>IS_ALIASED_INPUT_RESOLUTION := True\<rparr>))
      else (res, s\<lparr>IS_ALIASED_INPUT_RESOLUTION := False\<rparr>))"

text \<open>\<^verbatim>\<open>kc_apply_new_capture_resolution\<close>, the handler of a new video mode.\<close>

definition kc_apply_new_capture_resolution :: "capture \<Rightarrow> capture" where
  "kc_apply_new_capture_resolution s =
     (case aliased (capture_resolution s) s of
        (res, s1) \<Rightarrow>
          (case kc_apply_mode_parameters res s1 of
             (_, s2) \<Rightarrow> s2\<lparr>RECEIVED_NEW_VIDEO_MODE := False\<rparr>))"

text \<open>
  \<^verbatim>\<open>kc_update_alias_resolutions\<close>: the list is stored as it is given. With a signal
  present, the first alias whose source is the current resolution has \<^verbatim>\<open>main\<close> asked to
  switch to its target.
\<close>

definition kc_update_alias_resolutions :: "mode_alias_s list \<Rightarrow> capture \<Rightarrow> capture" where
  "kc_update_alias_resolutions aliases s =
     (let s1 = s\<lparr>ALIASES := aliases\<rparr> in
      if \<not> kc_no_signal s1 then
        (let currentRes = capture_resolution s1 in
         case find (\<lambda>alias. w (from alias) = w currentRes \<and> h (from alias) = h currentRes)
                (ALIASES s1) of
           Some alias \<Rightarrow>
             s1\<lparr>outcalls := outcalls s1 @ [kmain_change_capture_input_resolution (to alias)]\<rparr>
         | None \<Rightarrow> s1)
      else s1)"

text \<open>
  \<^verbatim>\<open>update_known_mode_params\<close>: the index of the first known mode of that size; a new
  entry with the card's defaults is appended, and announced, when there is none.
\<close>

fun mode_index_from :: "mode_params_s list \<Rightarrow> nat \<Rightarrow> resolution_s \<Rightarrow> nat" where
  "mode_index_from [] idx res = idx"
| "mode_index_from (m # ms) idx res =
     (if w (r m) = w res \<and> h (r m) = h res then idx else mode_index_from ms (Suc idx) res)"

definition update_known_mode_params ::
  "resolution_s \<Rightarrow> input_color_settings_s option \<Rightarrow> input_video_settings_s option \<Rightarrow>
   capture \<Rightarrow> capture" where
  "update_known_mode_params res c v s =
     (let idx = mode_index_from (KNOWN_MODES s) 0 res;
          s1 = (if idx < length (KNOWN_MODES s) then s
                else s\<lparr>KNOWN_MODES := KNOWN_MODES s @
                          [\<lparr>r = res, color = default_color_settings (card s),
                            video = default_video_settings (card s)\<rparr>],
                        outcalls := outcalls s @ [kd_signal_new_known_mode res]\<rparr>);
          s2 = (case c of None \<Rightarrow> s1
                | Some c' \<Rightarrow> s1\<lparr>KNOWN_MODES :=
                    (KNOWN_MODES s1)[idx := (KNOWN_MODES s1 ! idx)\<lparr>color := c'\<rparr>]\<rparr>)
      in (case v of None \<Rightarrow> s2
          | Some v' \<Rightarrow> s2\<lparr>KNOWN_MODES :=
              (KNOWN_MODES s2)[idx := (KNOWN_MODES s2 ! idx)\<lparr>video := v'\<rparr>]\<rparr>))"

text \<open>\<^verbatim>\<open>kc_set_capture_video_params\<close>: ignored without a signal.\<close>

definition kc_set_capture_video_params :: "input_video_settings_s \<Rightarrow> capture \<Rightarrow> capture" where
  "kc_set_capture_video_params v s =
     (if kc_no_signal s then s
      else
        let c = rgb_all [RGBSetPhase (phase v), RGBSetBlackLevel (blackLevel v),
                         RGBSetHorPosition (horPos v), RGBSetHorScale (horScale v),
                         RGBSetVerPosition (verPos v)] (card s)
        in update_known_mode_params (capture_resolution s) None (Some v) (s\<lparr>card := c\<rparr>))"

text \<open>
  \<^verbatim>\<open>kc_adjust_capture_vertical_offset\<close>. The settings are \<^verbatim>\<open>long\<close> values of a few
  thousand at most; they are integers here, and the cast of the minimum to \<^verbatim>\<open>int\<close> is
  the identity on them. A zero \<open>delta\<close> returns \<open>True\<close> at once. The result is \<open>True\<close> also
  when the card refuses the write; only the display update is skipped then.
\<close>

definition kc_adjust_capture_vertical_offset :: "int \<Rightarrow> capture \<Rightarrow> bool \<times> capture" where
  "kc_adjust_capture_vertical_offset delta s =
     (if delta = 0 then (True, s)
      else
        let newPos = verPos (status_video_settings (card s)) + delta in
        if newPos < max 2 (verPos (minimum_video_settings (card s))) \<or>
           newPos > verPos (maximum_video_settings (card s))
        then (False, s)
        else
          case rgb (RGBSetVerPosition newPos) (card s) of
            (ok, c) \<Rightarrow>
              if ok then (True, s\<lparr>card := c,
                                   outcalls := outcalls s @ [kd_update_gui_video_params]\<rparr>)
              else (True, s\<lparr>card := c\<rparr>))"

text \<open>The vertical positions among a list of calls sent to the card.\<close>

fun ver_positions :: "rgb_call list \<Rightarrow> int list" where
  "ver_positions [] = []"
| "ver_positions (RGBSetVerPosition v # cs) = v # ver_positions cs"
| "ver_positions (_ # cs) = ver_positions cs"

section \<open>Saving and loading aliases\<close>

text \<open>
  \<^verbatim>\<open>QTextStream\<close> writes an unsigned value in decimal; \<^verbatim>\<open>QString::toUInt\<close> reads a
  decimal string that fits \<^verbatim>\<open>unsigned int\<close> and gives 0 for anything else. Both belong
  to Qt, not to the repository. The white space that \<^verbatim>\<open>toUInt\<close> would skip does not
  occur in what is written.
\<close>

definition digit_char :: "nat \<Rightarrow> char" where
  "digit_char d = char_of (48 + d)"

function show_nat :: "nat \<Rightarrow> string" where
  "show_nat n = (if n < 10 then [digit_char n]
                 else show_nat (n div 10) @ [digit_char (n mod 10)])"
  by pat_completeness auto
termination
  by (relation "measure id") auto

declare show_nat.simps [simp del]

definition is_digit :: "char \<Rightarrow> bool" where
  "is_digit c = (48 \<le> (of_char c :: nat) \<and> (of_char c :: nat) \<le> 57)"

definition digit_val :: "char \<Rightarrow> nat" where
  "digit_val c = of_char c - 48"

definition decimal_value :: "string \<Rightarrow> nat" where
  "decimal_value s = foldl (\<lambda>acc c. acc * 10 + digit_val c) 0 s"

definition toUInt :: "string \<Rightarrow> nat" where
  "toUInt s =
     (if s \<noteq> [] \<and> list_all is_digit s \<and> decimal_value s < 2 ^ 32 then decimal_value s
      else 0)"

text \<open>The line \<^verbatim>\<open>kc_save_aliases\<close> writes for one alias.\<close>

definition alias_line :: "mode_alias_s \<Rightarrow> string" where
  "alias_line a =
     show_nat (w (from a)) @ [CHR '',''] @ show_nat (h (from a)) @ [CHR '',''] @
     show_nat (w (to a)) @ [CHR '',''] @ show_nat (h (to a)) @ [CHR '','', CHR 0x0A]"

text \<open>
  The disk: the text of each file, and which operations the file system lets succeed.
\<close>

datatype io_op =
    io_open_write string
  | io_remove string
  | io_rename string string

record disk =
  files :: "string \<Rightarrow> string option"
  permits :: "io_op \<Rightarrow> bool"

text \<open>
  \<^verbatim>\<open>kc_save_aliases\<close>: the lines go to \<open>filename.tmp\<close>; an existing target is removed;
  the temporary file is renamed to the target. Each of the three steps can fail, which
  ends the save with a message and \<open>False\<close>.
\<close>

definition kc_save_aliases :: "string \<Rightarrow> capture \<Rightarrow> disk \<Rightarrow> bool \<times> capture \<times> disk" where
  "kc_save_aliases filename s d =
     (let tempFilename = filename @ ''.tmp'';
          failed = s\<lparr>outcalls := outcalls s @
                      [kd_show_headless_error_message ''Data was not saved'']\<rparr>
      in
      if \<not> permits d (io_open_write tempFilename) then (False, failed, d)
      else
        let text = concat (map alias_line (ALIASES s));
            d1 = d\<lparr>files := (files d)(tempFilename := Some text)\<rparr>
        in
        if files d1 filename \<noteq> None \<and> \<not> permits d (io_remove filename)
        then (False, failed, d1)
        else
          let d2 = d1\<lparr>files := (files d1)(filename := None)\<rparr> in
          if \<not> permits d (io_rename tempFilename filename) then (False, failed, d2)
          else (True, s,
                d2\<lparr>files := (files d2)(tempFilename := None, filename := Some text)\<rparr>))"

text \<open>
  Modelled from the spec: \<^verbatim>\<open>csv_parse_c::contents\<close> (\<^verbatim>\<open>common/csv.h\<close> is missing from
  the sources). The spec has one row per line, fields separated by commas, the alias rows
  ending in a comma after the fourth field and the mode-parameter rows without one, and
  blank lines between blocks. So a row is the pieces between commas, without the empty
  piece that a trailing comma leaves, and empty lines give no row. A file that cannot be
  read gives no rows.
\<close>

fun split_on :: "char \<Rightarrow> string \<Rightarrow> string list" where
  "split_on c [] = [[]]"
| "split_on c (x # xs) =
     (if x = c then [] # split_on c xs
      else (case split_on c xs of
              [] \<Rightarrow> [[x]]
            | p # ps \<Rightarrow> (x # p) # ps))"

definition csv_row :: "string \<Rightarrow> string list" where
  "csv_row line =
     (let ps = split_on CHR '','' line in if last ps = [] then butlast ps else ps)"

definition csv_contents :: "disk \<Rightarrow> string \<Rightarrow> string list list" where
  "csv_contents d filename =
     (case files d filename of
        None \<Rightarrow> []
      | Some text \<Rightarrow> map csv_row (filter (\<lambda>l. l \<noteq> []) (split_on (CHR 0x0A) text)))"

text \<open>
  The row loop of \<^verbatim>\<open>kc_load_aliases\<close>: a row that does not have four fields ends the
  load. The loader sets the width and the height of both resolutions and leaves their
  \<^verbatim>\<open>bpp\<close> unset; \<open>unset\<close> stands for whatever value that field then has.
\<close>

fun alias_rows :: "nat \<Rightarrow> string list list \<Rightarrow> mode_alias_s list \<Rightarrow> mode_alias_s list option" where
  "alias_rows unset [] aliasesFromDisk = Some aliasesFromDisk"
| "alias_rows unset (row # rows) aliasesFromDisk =
     (if length row \<noteq> 4 then None
      else alias_rows unset rows
             (aliasesFromDisk @
                [\<lparr>from = \<lparr>w = toUInt (row ! 0), h = toUInt (row ! 1), bpp = unset\<rparr>,
                  to = \<lparr>w = toUInt (row ! 2), h = toUInt (row ! 3), bpp = unset\<rparr>\<rparr>]))"

text \<open>\<^verbatim>\<open>kc_broadcast_aliases_to_gui\<close>.\<close>

definition kc_broadcast_aliases_to_gui :: "capture \<Rightarrow> capture" where
  "kc_broadcast_aliases_to_gui s =
     s\<lparr>outcalls := outcalls s @ kd_clear_known_aliases # map kd_signal_new_known_alias (ALIASES s)\<rparr>"

text \<open>
  \<^verbatim>\<open>kc_load_aliases\<close>. An empty file name loads nothing and succeeds. The aliases are
  put into use first and sorted by the area of their target afterwards; \<^verbatim>\<open>std::sort\<close>
  fixes no order among equal areas, and the stable sort used here is one of the orders it
  may produce.
\<close>

definition kc_load_aliases ::
  "nat \<Rightarrow> string \<Rightarrow> bool \<Rightarrow> capture \<Rightarrow> disk \<Rightarrow> bool \<times> capture" where
  "kc_load_aliases unset filename automaticCall s d =
     (if filename = [] then (True, s)
      else
        case alias_rows unset (csv_contents d filename) [] of
          None \<Rightarrow>
            (False, s\<lparr>outcalls := outcalls s @
                        [kd_show_headless_error_message ''Data was not loaded'']\<rparr>)
        | Some aliasesFromDisk \<Rightarrow>
            let s1 = kc_update_alias_resolutions aliasesFromDisk s;
                s2 = s1\<lparr>ALIASES := sort_key (\<lambda>a. w (to a) * h (to a)) (ALIASES s1)\<rparr>;
                s3 = kc_broadcast_aliases_to_gui s2
            in (True, if \<not> automaticCall
                      then s3\<lparr>outcalls := outcalls s3 @ [kpropagate_new_input_video_mode]\<rparr>
                      else s3))"

text \<open>What identifies an alias: the sizes of its source and of its target.\<close>

definition alias_fields :: "mode_alias_s \<Rightarrow> nat list" where
  "alias_fields a = [w (from a), h (from a), w (to a), h (to a)]"

text \<open>
  The aliases the unit can hold come from \<^verbatim>\<open>toUInt\<close> or from the spin boxes of the alias
  dialog, so each field fits \<^verbatim>\<open>unsigned int\<close>.
\<close>

definition alias_in_range :: "mode_alias_s \<Rightarrow> bool" where
  "alias_in_range a = list_all (\<lambda>n. n < 2 ^ 32) (alias_fields a)"

text \<open>A saved line without its line break, and an alias as the loader rebuilds it.\<close>

definition alias_body :: "mode_alias_s \<Rightarrow> string" where
  "alias_body a =
     show_nat (w (from a)) @ CHR '','' # show_nat (h (from a)) @ CHR '','' #
     show_nat (w (to a)) @ CHR '','' # show_nat (h (to a)) @ [CHR '','']"

definition reloaded :: "nat \<Rightarrow> mode_alias_s \<Rightarrow> mode_alias_s" where
  "reloaded unset a = \<lparr>from = \<lparr>w = w (from a), h = h (from a), bpp = unset\<rparr>,
                        to = \<lparr>w = w (to a), h = h (to a), bpp = unset\<rparr>\<rparr>"

section \<open>The scaler unit\<close>

text \<open>
  The bounds of the output size come from \<^verbatim>\<open>common/globals.h\<close>, which is missing from
  the sources; they are parameters here.
\<close>

record globals =
  MAX_OUTPUT_WIDTH :: nat
  MAX_OUTPUT_HEIGHT :: nat
  MIN_OUTPUT_WIDTH :: nat
  MIN_OUTPUT_HEIGHT :: nat

definition OUTPUT_BIT_DEPTH :: nat where
  "OUTPUT_BIT_DEPTH = 32"

datatype aspect_mode_e = native | traditional_4_3 | always_4_3

datatype scaler_function =
    s_scaler_nearest
  | s_scaler_linear
  | s_scaler_area
  | s_scaler_cubic
  | s_scaler_lanczos

record scaling_filter_s =
  name :: string
  scale :: scaler_function

text \<open>The catalogue, with and without \<^verbatim>\<open>USE_OPENCV\<close>.\<close>

definition SCALING_FILTERS :: "bool \<Rightarrow> scaling_filter_s list" where
  "SCALING_FILTERS use_opencv =
     (if use_opencv then
        [\<lparr>name = ''Nearest'', scale = s_scaler_nearest\<rparr>,
         \<lparr>name = ''Linear'', scale = s_scaler_linear\<rparr>,
         \<lparr>name = ''Area'', scale = s_scaler_area\<rparr>,
         \<lparr>name = ''Cubic'', scale = s_scaler_cubic\<rparr>,
         \<lparr>name = ''Lanczos'', scale = s_scaler_lanczos\<rparr>]
      else [\<lparr>name = ''Nearest'', scale = s_scaler_nearest\<rparr>])"

text \<open>
  The statics of the scaler unit. A pointer into the catalogue is the index of the entry
  it points to, \<open>None\<close> for \<^verbatim>\<open>nullptr\<close>.
\<close>

record scaler =
  UPSCALE_FILTER :: "nat option"
  DOWNSCALE_FILTER :: "nat option"
  ASPECT_MODE :: aspect_mode_e
  FORCE_ASPECT :: bool
  BASE_RESOLUTION :: resolution_s
  FORCE_BASE_RESOLUTION :: bool
  OUTPUT_SCALING :: real
  FORCE_SCALING :: bool

definition initial_scaler :: scaler where
  "initial_scaler =
     \<lparr>UPSCALE_FILTER = None, DOWNSCALE_FILTER = None, ASPECT_MODE = native,
      FORCE_ASPECT = True, BASE_RESOLUTION = \<lparr>w = 640, h = 480, bpp = 0\<rparr>,
      FORCE_BASE_RESOLUTION = False, OUTPUT_SCALING = 1, FORCE_SCALING = False\<rparr>"

text \<open>A failed \<^verbatim>\<open>k_assert\<close> ends the program.\<close>

datatype abort = k_assert_failed

text \<open>
  \<^verbatim>\<open>ks_output_resolution\<close>. \<open>recording\<close> is the recorder's video resolution while a
  recording runs (\<^verbatim>\<open>krecord_is_recording\<close>, \<^verbatim>\<open>krecord_video_resolution\<close>) and \<open>None\<close>
  otherwise. The scaling factor is a real number here; \<^verbatim>\<open>round\<close> of a non-negative
  product is the nearest natural number, halves upwards. The bounds check follows: the
  assignment in the branch for a width above \<^verbatim>\<open>MAX_OUTPUT_WIDTH\<close> has
  \<^verbatim>\<open>MAX_OUTPUT_HEIGHT\<close> on its right-hand side.
\<close>

definition ks_output_resolution ::
  "globals \<Rightarrow> resolution_s option \<Rightarrow> capture \<Rightarrow> scaler \<Rightarrow> resolution_s" where
  "ks_output_resolution g recording cap sc =
     (case recording of
        Some rv \<Rightarrow> \<lparr>w = w rv, h = h rv, bpp = OUTPUT_BIT_DEPTH\<rparr>
      | None \<Rightarrow>
          let inRes = capture_resolution cap;
              outRes0 = (if FORCE_BASE_RESOLUTION sc then BASE_RESOLUTION sc else inRes);
              outRes1 = (if FORCE_SCALING sc
                         then outRes0\<lparr>w := nat (round (real (w outRes0) * OUTPUT_SCALING sc)),
                                      h := nat (round (real (h outRes0) * OUTPUT_SCALING sc))\<rparr>
                         else outRes0);
              outRes2 = (if w outRes1 > MAX_OUTPUT_WIDTH g
                         then outRes1\<lparr>w := MAX_OUTPUT_HEIGHT g\<rparr>
                         else if w outRes1 < MIN_OUTPUT_WIDTH g
                         then outRes1\<lparr>w := MIN_OUTPUT_WIDTH g\<rparr>
                         else outRes1);
              outRes3 = (if h outRes2 > MAX_OUTPUT_HEIGHT g
                         then outRes2\<lparr>h := MAX_OUTPUT_HEIGHT g\<rparr>
                         else if h outRes2 < MIN_OUTPUT_HEIGHT g
                         then outRes2\<lparr>h := MIN_OUTPUT_HEIGHT g\<rparr>
                         else outRes2)
          in outRes3\<lparr>bpp := OUTPUT_BIT_DEPTH\<rparr>)"

text \<open>
  \<^verbatim>\<open>s_convert_frame_to_bgra\<close>: the conversion code handed to \<^verbatim>\<open>cv::cvtColor\<close>. The
  pixel format is what \<^verbatim>\<open>kc_pixel_format\<close> returns; \<open>RGB_PIXELFORMAT_other\<close> stands for
  the formats of the vendor's enumeration that the unit does not name. \<open>conversionType\<close>
  starts as 0. In the last branch the test for 32 bits is an \<^verbatim>\<open>if\<close> of its own; the
  test for 24 bits that follows it has the \<^verbatim>\<open>else\<close>. Without OpenCV the function
  asserts, as it does when the conversion buffer is null.
\<close>

datatype PIXELFORMAT =
    RGB_PIXELFORMAT_555
  | RGB_PIXELFORMAT_565
  | RGB_PIXELFORMAT_888
  | RGB_PIXELFORMAT_other

datatype cv_conversion =
    CV_ZERO
  | CV_BGR5652BGRA
  | CV_BGR5552BGRA
  | CV_RGBA2BGRA
  | CV_BGR2BGRA

definition s_convert_frame_to_bgra ::
  "bool \<Rightarrow> PIXELFORMAT \<Rightarrow> bool \<Rightarrow> captured_frame_s \<Rightarrow> abort + cv_conversion" where
  "s_convert_frame_to_bgra use_opencv kc_pixel_format colorconv_is_null frame =
     (if \<not> use_opencv then Inl k_assert_failed
      else if colorconv_is_null then Inl k_assert_failed
      else if kc_pixel_format = RGB_PIXELFORMAT_565 then Inr CV_BGR5652BGRA
      else if kc_pixel_format = RGB_PIXELFORMAT_555 then Inr CV_BGR5552BGRA
      else
        let conversionType0 = CV_ZERO;
            conversionType1 = (if bpp (captured_frame_s.r frame) = 32 then CV_RGBA2BGRA
                               else conversionType0);
            conversionType2 = (if bpp (captured_frame_s.r frame) = 24 then CV_BGR2BGRA
                               else CV_BGR5652BGRA)
        in Inr conversionType2)"



text \<open>
  \<^verbatim>\<open>ks_scaler_for_name_string\<close>: the loop returns the first entry of that name; when
  the loop ends without one, the result is the entry at index 0.
\<close>

fun scaler_index_from :: "scaling_filter_s list \<Rightarrow> nat \<Rightarrow> string \<Rightarrow> nat option" where
  "scaler_index_from [] i nm = None"
| "scaler_index_from (f # fs) i nm =
     (if name f = nm then Some i else scaler_index_from fs (Suc i) nm)"

definition ks_scaler_for_name_string ::
  "scaling_filter_s list \<Rightarrow> string \<Rightarrow> abort + nat option" where
  "ks_scaler_for_name_string filters nm =
     (if filters = [] then Inl k_assert_failed
      else case scaler_index_from filters 0 nm of
             Some i \<Rightarrow> Inr (Some i)
           | None \<Rightarrow> Inr (Some 0))"

text \<open>\<^verbatim>\<open>ks_set_upscaling_filter\<close> and \<^verbatim>\<open>ks_set_downscaling_filter\<close>.\<close>

definition ks_set_upscaling_filter ::
  "scaling_filter_s list \<Rightarrow> string \<Rightarrow> scaler \<Rightarrow> abort + scaler" where
  "ks_set_upscaling_filter filters nm sc =
     (case ks_scaler_for_name_string filters nm of
        Inl e \<Rightarrow> Inl e
      | Inr f \<Rightarrow> Inr (sc\<lparr>UPSCALE_FILTER := f\<rparr>))"

definition ks_set_downscaling_filter ::
  "scaling_filter_s list \<Rightarrow> string \<Rightarrow> scaler \<Rightarrow> abort + scaler" where
  "ks_set_downscaling_filter filters nm sc =
     (case ks_scaler_for_name_string filters nm of
        Inl e \<Rightarrow> Inl e
      | Inr f \<Rightarrow> Inr (sc\<lparr>DOWNSCALE_FILTER := f\<rparr>))"

section \<open>Concrete inputs\<close>

definition res_800x600 :: resolution_s where
  "res_800x600 = \<lparr>w = 800, h = 600, bpp = 32\<rparr>"

definition res_1024x768 :: resolution_s where
  "res_1024x768 = \<lparr>w = 1024, h = 768, bpp = 32\<rparr>"

definition res_640x480 :: resolution_s where
  "res_640x480 = \<lparr>w = 640, h = 480, bpp = 32\<rparr>"

definition mode_800x600 :: mode_params_s where
  "mode_800x600 = \<lparr>r = res_800x600, color = zero_color\<lparr>bright := 11, contr := 12\<rparr>,
     video = zero_video\<lparr>horScale := 1056, horPos := 13, verPos := 1, phase := 14\<rparr>\<rparr>"

definition mode_1024x768 :: mode_params_s where
  "mode_1024x768 = \<lparr>r = res_1024x768, color = zero_color\<lparr>bright := 21, contr := 22\<rparr>,
     video = zero_video\<lparr>horScale := 1344, horPos := 23, verPos := 24, phase := 25\<rparr>\<rparr>"

text \<open>
  The alias scenario: one alias from 800 x 600 to 1024 x 768, parameters known for both
  sizes, the card reporting 800 x 600.
\<close>

definition alias_demo :: capture where
  "alias_demo = (initial_capture card_800x600)
     \<lparr>ALIASES := [\<lparr>from = res_800x600, to = res_1024x768\<rparr>],
      KNOWN_MODES := [mode_800x600, mode_1024x768]\<rparr>"

text \<open>A capture unit with a frame buffer of 16 bytes, and a frame of 2 x 1 pixels.\<close>

definition capture_ready :: capture where
  "capture_ready = (initial_capture card_800x600)
     \<lparr>FRAME_BUFFER := \<lparr>captured_frame_s.r = res_640x480, pixels = Some (replicate 16 0)\<rparr>\<rparr>"

definition demo_info :: bitmapinfoheader where
  "demo_info = \<lparr>biWidth = 2, biHeight = - 1, biBitCount = 32\<rparr>"

definition demo_data :: "u8 list" where
  "demo_data = [1, 2, 3, 4, 5, 6, 7, 8]"

definition duplicate_aliases :: "mode_alias_s list" where
  "duplicate_aliases =
     [\<lparr>from = res_800x600, to = res_1024x768\<rparr>, \<lparr>from = res_800x600, to = res_640x480\<rparr>]"

text \<open>Known parameters for 800 x 600 whose vertical position is 1.\<close>

definition low_verpos_demo :: capture where
  "low_verpos_demo = (initial_capture card_800x600)\<lparr>KNOWN_MODES := [mode_800x600]\<rparr>"

text \<open>Output bounds whose maximal width and height differ, and a scaler that triples.\<close>

definition globals_demo :: globals where
  "globals_demo = \<lparr>MAX_OUTPUT_WIDTH = 1920, MAX_OUTPUT_HEIGHT = 1080,
                    MIN_OUTPUT_WIDTH = 160, MIN_OUTPUT_HEIGHT = 100\<rparr>"

definition scaler_times_3 :: scaler where
  "scaler_times_3 = initial_scaler\<lparr>OUTPUT_SCALING := 3, FORCE_SCALING := True\<rparr>"

definition frame_32bpp :: captured_frame_s where
  "frame_32bpp = \<lparr>captured_frame_s.r = res_640x480, pixels = Some (replicate 16 0)\<rparr>"



text \<open>A disk without files on which every operation succeeds.\<close>

definition empty_disk :: disk where
  "empty_disk = \<lparr>files = (\<lambda>_. None), permits = (\<lambda>_. True)\<rparr>"

section \<open>Theorems: frame hand-off\<close>

lemma frame_captured_busy:
  "CNT_FRAMES_CAPTURED s \<noteq> CNT_FRAMES_PROCESSED s \<Longrightarrow>
   frame_captured fi fd s = s\<lparr>CNT_FRAMES_SKIPPED := CNT_FRAMES_SKIPPED s + 1\<rparr>"
  by (simp add: frame_captured_def)

lemma frame_captured_idle_counters:
  assumes "CNT_FRAMES_CAPTURED s = CNT_FRAMES_PROCESSED s"
  shows "CNT_FRAMES_CAPTURED (frame_captured fi fd s) = CNT_FRAMES_CAPTURED s + 1"
    and "CNT_FRAMES_PROCESSED (frame_captured fi fd s) = CNT_FRAMES_PROCESSED s"
    and "CNT_FRAMES_SKIPPED (frame_captured fi fd s) = CNT_FRAMES_SKIPPED s"
  using assms
  by (simp_all add: frame_captured_def Let_def split: option.splits)

text \<open>
  C9. For every state of the counters and of the skip count,
  \<^verbatim>\<open>kc_mark_frame_buffer_as_processed\<close> leaves the processed counter equal to the captured
  counter, which it does not change, and lowers the skip count by exactly one when it is
  positive and leaves it at zero otherwise: read as a number, the new skip count is the
  old one minus one, with the subtraction stopping at zero.
\<close>

theorem mark_processed_establishes:
  "CNT_FRAMES_PROCESSED (kc_mark_frame_buffer_as_processed s) =
     CNT_FRAMES_CAPTURED (kc_mark_frame_buffer_as_processed s) \<and>
   CNT_FRAMES_CAPTURED (kc_mark_frame_buffer_as_processed s) = CNT_FRAMES_CAPTURED s \<and>
   unat (SKIP_NEXT_NUM_FRAMES (kc_mark_frame_buffer_as_processed s)) =
     unat (SKIP_NEXT_NUM_FRAMES s) - 1 \<and>
   (SKIP_NEXT_NUM_FRAMES s > 0 \<longrightarrow>
      SKIP_NEXT_NUM_FRAMES (kc_mark_frame_buffer_as_processed s) = SKIP_NEXT_NUM_FRAMES s - 1) \<and>
   (SKIP_NEXT_NUM_FRAMES s = 0 \<longrightarrow>
      SKIP_NEXT_NUM_FRAMES (kc_mark_frame_buffer_as_processed s) = 0)"
proof -
  have dec: "unat (x - 1) = unat x - 1" if "x > 0" for x :: u32
    using that by (simp add: unat_minus_one word_greater_zero_iff)
  show ?thesis
    by (auto simp: kc_mark_frame_buffer_as_processed_def Let_def dec word_greater_zero_iff)
qed

theorem mark_processed_witness:
  "SKIP_NEXT_NUM_FRAMES (kc_mark_frame_buffer_as_processed
      ((initial_capture card_800x600)\<lparr>SKIP_NEXT_NUM_FRAMES := 2, CNT_FRAMES_CAPTURED := 5\<rparr>)) = 1 \<and>
   SKIP_NEXT_NUM_FRAMES (kc_mark_frame_buffer_as_processed (initial_capture card_800x600)) = 0"
  using mark_processed_establishes
    [of "(initial_capture card_800x600)\<lparr>SKIP_NEXT_NUM_FRAMES := 2, CNT_FRAMES_CAPTURED := 5\<rparr>"]
    mark_processed_establishes [of "initial_capture card_800x600"]
  by (simp add: initial_capture_def)

section \<open>Theorems: four frames without processing\<close>

text \<open>
  C2, as amended. Starting from both counters at 0, four calls of the frame callback with
  no call of \<^verbatim>\<open>kc_mark_frame_buffer_as_processed\<close> between them leave the captured
  counter at 1, the processed counter at 0 and the skip counter three higher: the first
  frame is accepted, and each of the next three returns on the drop path, which
  increments the skip counter only.
\<close>

theorem frame_captured_four_times:
  assumes "CNT_FRAMES_CAPTURED s = 0" and "CNT_FRAMES_PROCESSED s = 0"
  shows "CNT_FRAMES_CAPTURED
           (frame_captured i4 d4 (frame_captured i3 d3 (frame_captured i2 d2
              (frame_captured i1 d1 s)))) = 1 \<and>
         CNT_FRAMES_PROCESSED
           (frame_captured i4 d4 (frame_captured i3 d3 (frame_captured i2 d2
              (frame_captured i1 d1 s)))) = 0 \<and>
         CNT_FRAMES_SKIPPED
           (frame_captured i4 d4 (frame_captured i3 d3 (frame_captured i2 d2
              (frame_captured i1 d1 s)))) = CNT_FRAMES_SKIPPED s + 3"
proof -
  let ?s1 = "frame_captured i1 d1 s"
  have c1: "CNT_FRAMES_CAPTURED ?s1 = 1" and p1: "CNT_FRAMES_PROCESSED ?s1 = 0"
    and k1: "CNT_FRAMES_SKIPPED ?s1 = CNT_FRAMES_SKIPPED s"
    using frame_captured_idle_counters [of s i1 d1] assms by simp_all
  have busy: "CNT_FRAMES_CAPTURED t \<noteq> CNT_FRAMES_PROCESSED t"
    if "CNT_FRAMES_CAPTURED t = 1" "CNT_FRAMES_PROCESSED t = 0" for t
    using that by simp
  let ?s2 = "frame_captured i2 d2 ?s1"
  have s2: "?s2 = ?s1\<lparr>CNT_FRAMES_SKIPPED := CNT_FRAMES_SKIPPED ?s1 + 1\<rparr>"
    by (rule frame_captured_busy) (simp add: c1 p1)
  have c2: "CNT_FRAMES_CAPTURED ?s2 = 1" and p2: "CNT_FRAMES_PROCESSED ?s2 = 0"
    and k2: "CNT_FRAMES_SKIPPED ?s2 = CNT_FRAMES_SKIPPED s + 1"
    by (simp_all add: s2 c1 p1 k1)
  let ?s3 = "frame_captured i3 d3 ?s2"
  have s3: "?s3 = ?s2\<lparr>CNT_FRAMES_SKIPPED := CNT_FRAMES_SKIPPED ?s2 + 1\<rparr>"
    by (rule frame_captured_busy) (simp add: c2 p2)
  have c3: "CNT_FRAMES_CAPTURED ?s3 = 1" and p3: "CNT_FRAMES_PROCESSED ?s3 = 0"
    and k3: "CNT_FRAMES_SKIPPED ?s3 = CNT_FRAMES_SKIPPED s + 2"
    by (simp_all add: s3 c2 p2 k2)
  let ?s4 = "frame_captured i4 d4 ?s3"
  have s4: "?s4 = ?s3\<lparr>CNT_FRAMES_SKIPPED := CNT_FRAMES_SKIPPED ?s3 + 1\<rparr>"
    by (rule frame_captured_busy) (simp add: c3 p3)
  have "CNT_FRAMES_CAPTURED ?s4 = 1" "CNT_FRAMES_PROCESSED ?s4 = 0"
    "CNT_FRAMES_SKIPPED ?s4 = CNT_FRAMES_SKIPPED s + 3"
    by (simp_all add: s4 c3 p3 k3)
  then show ?thesis by simp
qed

lemma four_frames_demo:
  "frame_captured (Some demo_info) (Some demo_data)
     (frame_captured (Some demo_info) (Some demo_data)
       (frame_captured (Some demo_info) (Some demo_data)
         (frame_captured (Some demo_info) (Some demo_data) capture_ready))) =
   capture_ready\<lparr>FRAME_BUFFER := \<lparr>captured_frame_s.r = \<lparr>w = 2, h = 1, bpp = 32\<rparr>,
                     pixels = Some (demo_data @ replicate 8 0)\<rparr>,
                 CNT_FRAMES_CAPTURED := 1, CNT_FRAMES_SKIPPED := 3\<rparr>"
  by (simp add: frame_captured_def capture_ready_def initial_capture_def demo_info_def
      demo_data_def MAX_BIT_DEPTH_def up_to_def Let_def)

theorem frame_captured_four_times_witness:
  "CNT_FRAMES_CAPTURED capture_ready = 0 \<and> CNT_FRAMES_PROCESSED capture_ready = 0 \<and>
   CNT_FRAMES_CAPTURED
     (frame_captured (Some demo_info) (Some demo_data)
       (frame_captured (Some demo_info) (Some demo_data)
         (frame_captured (Some demo_info) (Some demo_data)
           (frame_captured (Some demo_info) (Some demo_data) capture_ready)))) = 1 \<and>
   CNT_FRAMES_SKIPPED
     (frame_captured (Some demo_info) (Some demo_data)
       (frame_captured (Some demo_info) (Some demo_data)
         (frame_captured (Some demo_info) (Some demo_data)
           (frame_captured (Some demo_info) (Some demo_data) capture_ready)))) = 3"
proof -
  have c: "CNT_FRAMES_CAPTURED capture_ready = 0" and p: "CNT_FRAMES_PROCESSED capture_ready = 0"
    and k: "CNT_FRAMES_SKIPPED capture_ready = 0"
    by (simp_all add: capture_ready_def initial_capture_def)
  from frame_captured_four_times [OF c p, of "Some demo_info" "Some demo_data"
      "Some demo_info" "Some demo_data" "Some demo_info" "Some demo_data"
      "Some demo_info" "Some demo_data"] c p k
  show ?thesis by simp
qed

text \<open>
  The claim as stated fails on the ready capture unit with four frames of 2 x 1 pixels:
  the captured counter is not 4 afterwards.
\<close>

theorem four_frames_counterexample:
  "\<not> (CNT_FRAMES_CAPTURED
         (frame_captured (Some demo_info) (Some demo_data)
           (frame_captured (Some demo_info) (Some demo_data)
             (frame_captured (Some demo_info) (Some demo_data)
               (frame_captured (Some demo_info) (Some demo_data) capture_ready)))) = 4)"
  by (simp add: four_frames_demo)

section \<open>Theorems: the next capture event\<close>

lemma force_current_refused:
  "kc_force_capture_input_resolution (capture_resolution s) s = (False, s)"
  by (simp add: kc_force_capture_input_resolution_def)

lemma aliased_current:
  "aliased (capture_resolution s) s =
     (capture_resolution s, s\<lparr>IS_ALIASED_INPUT_RESOLUTION := False\<rparr>)"
  by (simp add: aliased_def force_current_refused Let_def)

lemma apply_new_capture_resolution_eq:
  "kc_apply_new_capture_resolution s =
     s\<lparr>IS_ALIASED_INPUT_RESOLUTION := False,
       card := rgb_all (mode_parameter_calls
                 (kc_mode_params_for_resolution (capture_resolution s) s)) (card s),
       RECEIVED_NEW_VIDEO_MODE := False\<rparr>"
  by (simp add: kc_apply_new_capture_resolution_def aliased_current kc_apply_mode_parameters_def
      kc_mode_params_for_resolution_def Let_def split: option.splits)

lemma issued_rgb: "issued (snd (rgb call c)) = issued c @ [call]"
  by (cases call) (simp_all add: rgb_def)

lemma issued_rgb_all: "issued (rgb_all calls c) = issued c @ calls"
  unfolding rgb_all_def
  by (induction calls arbitrary: c) (simp_all add: issued_rgb)

lemma capture_size_rgb_all:
  "\<forall>call\<in>set calls. \<not> (\<exists>n. call = RGBSetCaptureWidth n) \<and> \<not> (\<exists>n. call = RGBSetCaptureHeight n)
   \<Longrightarrow> capture_width (rgb_all calls c) = capture_width c \<and>
       capture_height (rgb_all calls c) = capture_height c"
  unfolding rgb_all_def
proof (induction calls arbitrary: c)
  case Nil
  then show ?case by simp
next
  case (Cons call calls)
  have "capture_width (snd (rgb call c)) = capture_width c \<and>
        capture_height (snd (rgb call c)) = capture_height c"
    using Cons.prems by (cases call) (auto simp: rgb_def)
  with Cons show ?case by simp
qed

lemma apply_new_capture_resolution_consumes:
  "\<not> RECEIVED_NEW_VIDEO_MODE (kc_apply_new_capture_resolution s)"
  by (simp add: apply_new_capture_resolution_eq)

text \<open>
  C3, as amended. For every state of the statics, \<^verbatim>\<open>kc_get_next_capture_event\<close> returns
  the first matching event of the priority list (unrecoverable error, new video mode,
  signal lost, sleep without a signal, signal became invalid, sleep on an invalid signal,
  new frame, none). In the branch for a new video mode it sets the signal state to
  receiving and clears the invalid-signal flag; the flag of the new mode is still set
  after the call, and \<^verbatim>\<open>kc_apply_new_capture_resolution\<close>, the handler of the event,
  is what clears it.
\<close>

theorem next_event_priority:
  "fst (kc_get_next_capture_event s) = first_match spec_priority CEVENT_NONE s \<and>
   (fst (kc_get_next_capture_event s) = CEVENT_NEW_VIDEO_MODE \<longrightarrow>
      RECEIVING_A_SIGNAL (snd (kc_get_next_capture_event s)) \<and>
      \<not> SIGNAL_IS_INVALID (snd (kc_get_next_capture_event s)) \<and>
      RECEIVED_NEW_VIDEO_MODE (snd (kc_get_next_capture_event s)) \<and>
      \<not> RECEIVED_NEW_VIDEO_MODE
          (kc_apply_new_capture_resolution (snd (kc_get_next_capture_event s))))"
  by (simp add: kc_get_next_capture_event_def spec_priority_def kc_no_signal_def
      kc_is_invalid_signal_def apply_new_capture_resolution_consumes)

theorem next_event_priority_witness:
  "fst (kc_get_next_capture_event (video_mode_changed (initial_capture card_800x600))) =
     CEVENT_NEW_VIDEO_MODE \<and>
   RECEIVING_A_SIGNAL
     (snd (kc_get_next_capture_event (video_mode_changed (initial_capture card_800x600)))) \<and>
   \<not> RECEIVED_NEW_VIDEO_MODE (kc_apply_new_capture_resolution
     (snd (kc_get_next_capture_event (video_mode_changed (initial_capture card_800x600)))))"
proof -
  have "fst (kc_get_next_capture_event (video_mode_changed (initial_capture card_800x600))) =
     CEVENT_NEW_VIDEO_MODE"
    by (simp add: kc_get_next_capture_event_def video_mode_changed_def initial_capture_def)
  with next_event_priority [of "video_mode_changed (initial_capture card_800x600)"]
  show ?thesis by simp
qed

text \<open>
  The claim as stated fails after a mode change on the initial state: the event is the
  new video mode, and the flag is still set when the call has returned.
\<close>

theorem next_event_flag_counterexample:
  "fst (kc_get_next_capture_event (video_mode_changed (initial_capture card_800x600))) =
     CEVENT_NEW_VIDEO_MODE \<and>
   RECEIVED_NEW_VIDEO_MODE
     (snd (kc_get_next_capture_event (video_mode_changed (initial_capture card_800x600))))"
  by (simp add: kc_get_next_capture_event_def video_mode_changed_def initial_capture_def)

section \<open>Theorems: the alias switch\<close>

text \<open>
  C1, evaluated on the scenario of the specification. With the alias from 800 x 600 to
  1024 x 768 loaded and the card reporting 800 x 600, the mode change raises the new video
  mode event and the alias is found at index 0; but the handler sends the card only the
  eight parameter calls of the 800 x 600 mode, the card stays at 800 x 600, the input is
  not marked as aliased and no frame is set to be skipped. \<^verbatim>\<open>aliased\<close> asks
  \<^verbatim>\<open>kc_force_capture_input_resolution\<close> for the resolution it was given instead of the
  target of the alias, and that request is refused as already set.
\<close>

theorem alias_switch_not_forced:
  "fst (kc_get_next_capture_event (video_mode_changed alias_demo)) = CEVENT_NEW_VIDEO_MODE \<and>
   kc_alias_resolution_index (capture_resolution alias_demo) alias_demo = 0 \<and>
   issued (card (kc_apply_new_capture_resolution
      (snd (kc_get_next_capture_event (video_mode_changed alias_demo))))) =
     mode_parameter_calls mode_800x600 \<and>
   capture_width (card (kc_apply_new_capture_resolution
      (snd (kc_get_next_capture_event (video_mode_changed alias_demo))))) = 800 \<and>
   capture_height (card (kc_apply_new_capture_resolution
      (snd (kc_get_next_capture_event (video_mode_changed alias_demo))))) = 600 \<and>
   \<not> IS_ALIASED_INPUT_RESOLUTION (kc_apply_new_capture_resolution
      (snd (kc_get_next_capture_event (video_mode_changed alias_demo)))) \<and>
   SKIP_NEXT_NUM_FRAMES (kc_apply_new_capture_resolution
      (snd (kc_get_next_capture_event (video_mode_changed alias_demo)))) = 0"
proof -
  let ?s = "snd (kc_get_next_capture_event (video_mode_changed alias_demo))"
  have ev: "kc_get_next_capture_event (video_mode_changed alias_demo) =
     (CEVENT_NEW_VIDEO_MODE, alias_demo\<lparr>RECEIVED_NEW_VIDEO_MODE := True\<rparr>)"
    by (simp add: kc_get_next_capture_event_def video_mode_changed_def alias_demo_def
        initial_capture_def)
  have res: "capture_resolution ?s = res_800x600"
    unfolding ev by (simp add: capture_resolution_def alias_demo_def initial_capture_def card_800x600_def
        res_800x600_def)
  have p: "kc_mode_params_for_resolution res_800x600 ?s = mode_800x600"
    unfolding ev by (simp add: kc_mode_params_for_resolution_def alias_demo_def mode_800x600_def
        res_800x600_def)
  have idx: "kc_alias_resolution_index (capture_resolution alias_demo) alias_demo = 0"
    by (simp add: kc_alias_resolution_index_def capture_resolution_def alias_demo_def
        initial_capture_def card_800x600_def res_800x600_def)
  have i: "issued (card (kc_apply_new_capture_resolution ?s)) = mode_parameter_calls mode_800x600"
    unfolding apply_new_capture_resolution_eq res p
    unfolding ev by (simp add: issued_rgb_all alias_demo_def initial_capture_def card_800x600_def)
  have wh: "capture_width (card (kc_apply_new_capture_resolution ?s)) = 800 \<and>
            capture_height (card (kc_apply_new_capture_resolution ?s)) = 600"
  proof -
    have "capture_width (rgb_all (mode_parameter_calls mode_800x600) (card ?s)) =
            capture_width (card ?s) \<and>
          capture_height (rgb_all (mode_parameter_calls mode_800x600) (card ?s)) =
            capture_height (card ?s)"
      by (rule capture_size_rgb_all) (simp add: mode_parameter_calls_def)
    moreover have "capture_width (card ?s) = 800 \<and> capture_height (card ?s) = 600"
      unfolding ev by (simp add: alias_demo_def initial_capture_def card_800x600_def)
    ultimately show ?thesis
      by (simp add: apply_new_capture_resolution_eq res p)
  qed
  have rest: "\<not> IS_ALIASED_INPUT_RESOLUTION (kc_apply_new_capture_resolution ?s) \<and>
     SKIP_NEXT_NUM_FRAMES (kc_apply_new_capture_resolution ?s) = 0"
    unfolding apply_new_capture_resolution_eq
    unfolding ev by (simp add: alias_demo_def initial_capture_def)
  from ev idx i wh rest show ?thesis by simp
qed

section \<open>Theorems: the alias list\<close>

lemma alias_index_from_none:
  "\<forall>a\<in>set as. \<not> (w (from a) = w res \<and> h (from a) = h res) \<Longrightarrow>
   alias_index_from as i res = - 1"
  by (induction as arbitrary: i) auto

lemma alias_index_from_first:
  "\<exists>a\<in>set as. w (from a) = w res \<and> h (from a) = h res \<Longrightarrow>
   \<exists>k < length as. alias_index_from as i res = int (i + k) \<and>
      (w (from (as ! k)) = w res \<and> h (from (as ! k)) = h res) \<and>
      (\<forall>j < k. \<not> (w (from (as ! j)) = w res \<and> h (from (as ! j)) = h res)) \<and>
      find (\<lambda>a. w (from a) = w res \<and> h (from a) = h res) as = Some (as ! k)"
proof (induction as arbitrary: i)
  case Nil
  then show ?case by simp
next
  case (Cons a as)
  show ?case
  proof (cases "w (from a) = w res \<and> h (from a) = h res")
    case True
    then show ?thesis by (intro exI [of _ 0]) simp
  next
    case False
    with Cons.prems have "\<exists>a\<in>set as. w (from a) = w res \<and> h (from a) = h res" by auto
    from Cons.IH [OF this, of "Suc i"] obtain k where k: "k < length as"
      "alias_index_from as (Suc i) res = int (Suc i + k)"
      "w (from (as ! k)) = w res \<and> h (from (as ! k)) = h res"
      "\<forall>j < k. \<not> (w (from (as ! j)) = w res \<and> h (from (as ! j)) = h res)"
      "find (\<lambda>a. w (from a) = w res \<and> h (from a) = h res) as = Some (as ! k)"
      by blast
    have "\<forall>j < Suc k. \<not> (w (from ((a # as) ! j)) = w res \<and> h (from ((a # as) ! j)) = h res)"
      using False k(4) by (auto simp: less_Suc_eq_0_disj)
    with False k show ?thesis
      by (intro exI [of _ "Suc k"]) simp
  qed
qed

lemma ALIASES_update: "ALIASES (kc_update_alias_resolutions as s) = as"
  by (simp add: kc_update_alias_resolutions_def Let_def split: option.splits)

text \<open>
  C6, as amended. \<^verbatim>\<open>kc_update_alias_resolutions\<close> stores the list exactly as it is
  given, duplicates of a source included, and \<^verbatim>\<open>kc_alias_resolution_index\<close> resolves a
  resolution to the first alias in the list whose source has that width and height
  (and to \<open>-1\<close> when there is none).
\<close>

theorem update_alias_resolutions_stores_list:
  "ALIASES (kc_update_alias_resolutions as s) = as \<and>
   ((\<forall>a\<in>set as. \<not> (w (from a) = w res \<and> h (from a) = h res)) \<longrightarrow>
      kc_alias_resolution_index res (kc_update_alias_resolutions as s) = - 1) \<and>
   ((\<exists>a\<in>set as. w (from a) = w res \<and> h (from a) = h res) \<longrightarrow>
      (\<exists>k < length as.
         kc_alias_resolution_index res (kc_update_alias_resolutions as s) = int k \<and>
         find (\<lambda>a. w (from a) = w res \<and> h (from a) = h res) as = Some (as ! k) \<and>
         (\<forall>j < k. \<not> (w (from (as ! j)) = w res \<and> h (from (as ! j)) = h res))))"
proof (intro conjI impI)
  show "ALIASES (kc_update_alias_resolutions as s) = as" by (rule ALIASES_update)
next
  assume "\<forall>a\<in>set as. \<not> (w (from a) = w res \<and> h (from a) = h res)"
  then show "kc_alias_resolution_index res (kc_update_alias_resolutions as s) = - 1"
    by (simp add: kc_alias_resolution_index_def ALIASES_update alias_index_from_none)
next
  assume "\<exists>a\<in>set as. w (from a) = w res \<and> h (from a) = h res"
  from alias_index_from_first [OF this, of 0]
  show "\<exists>k < length as.
         kc_alias_resolution_index res (kc_update_alias_resolutions as s) = int k \<and>
         find (\<lambda>a. w (from a) = w res \<and> h (from a) = h res) as = Some (as ! k) \<and>
         (\<forall>j < k. \<not> (w (from (as ! j)) = w res \<and> h (from (as ! j)) = h res))"
    by (auto simp: kc_alias_resolution_index_def ALIASES_update)
qed

theorem update_alias_resolutions_witness:
  "kc_alias_resolution_index res_800x600
     (kc_update_alias_resolutions duplicate_aliases (initial_capture card_800x600)) = 0 \<and>
   kc_alias_resolution_index res_640x480
     (kc_update_alias_resolutions duplicate_aliases (initial_capture card_800x600)) = - 1"
proof -
  have a: "\<exists>a\<in>set duplicate_aliases. w (from a) = w res_800x600 \<and> h (from a) = h res_800x600"
    by (simp add: duplicate_aliases_def)
  have b: "\<forall>a\<in>set duplicate_aliases.
      \<not> (w (from a) = w res_640x480 \<and> h (from a) = h res_640x480)"
    by (simp add: duplicate_aliases_def res_800x600_def res_640x480_def)
  have c: "w (from (duplicate_aliases ! 0)) = w res_800x600 \<and>
           h (from (duplicate_aliases ! 0)) = h res_800x600"
    by (simp add: duplicate_aliases_def)
  from update_alias_resolutions_stores_list
         [of duplicate_aliases "initial_capture card_800x600" res_800x600] a
  obtain k where k: "kc_alias_resolution_index res_800x600
       (kc_update_alias_resolutions duplicate_aliases (initial_capture card_800x600)) = int k"
     "\<forall>j < k. \<not> (w (from (duplicate_aliases ! j)) = w res_800x600 \<and>
                  h (from (duplicate_aliases ! j)) = h res_800x600)"
    by blast
  from k(2) c have "k = 0" by (cases k) auto
  with k(1) update_alias_resolutions_stores_list
         [of duplicate_aliases "initial_capture card_800x600" res_640x480] b
  show ?thesis by simp
qed

text \<open>
  The claim as stated fails on a list with two aliases from 800 x 600: both are stored,
  and the lookup resolves to the first, whose target differs from that of the last.
\<close>

theorem duplicate_alias_counterexample:
  "ALIASES (kc_update_alias_resolutions duplicate_aliases (initial_capture card_800x600)) =
     [\<lparr>from = res_800x600, to = res_1024x768\<rparr>, \<lparr>from = res_800x600, to = res_640x480\<rparr>] \<and>
   kc_alias_resolution_index res_800x600
     (kc_update_alias_resolutions duplicate_aliases (initial_capture card_800x600)) = 0 \<and>
   to (last duplicate_aliases) = res_640x480 \<and>
   to (duplicate_aliases ! 0) = res_1024x768 \<and>
   res_1024x768 \<noteq> res_640x480"
  by (simp add: kc_alias_resolution_index_def ALIASES_update duplicate_aliases_def
      res_800x600_def res_1024x768_def res_640x480_def)

section \<open>Theorems: the vertical position\<close>

lemma ver_positions_append: "ver_positions (xs @ ys) = ver_positions xs @ ver_positions ys"
  by (induction xs rule: ver_positions.induct) simp_all

text \<open>
  \<^verbatim>\<open>kc_apply_mode_parameters\<close> sends the stored vertical position as it is.
\<close>

lemma apply_mode_parameters_ver_position:
  "ver_positions (issued (card (snd (kc_apply_mode_parameters res s)))) =
     ver_positions (issued (card s)) @ [verPos (video (kc_mode_params_for_resolution res s))]"
  by (simp add: kc_apply_mode_parameters_def Let_def issued_rgb_all ver_positions_append
      mode_parameter_calls_def)

text \<open>
  C7, as amended. Every vertical position that \<^verbatim>\<open>kc_adjust_capture_vertical_offset\<close>
  sends to the card is at least 2, whatever minimum the card reports: for every current
  position and every non-zero \<open>delta\<close> the function returns \<open>False\<close> and leaves the state,
  the card included, as it was whenever the new position is below the larger of 2 and
  the card's minimum or above the card's maximum; a zero \<open>delta\<close> returns \<open>True\<close> without a
  call; and a call it does make is one \<^verbatim>\<open>RGBSetVerPosition\<close> with a position inside
  those bounds.
\<close>

theorem adjust_vertical_offset_guard:
  "(delta \<noteq> 0 \<and>
      (verPos (status_video_settings (card s)) + delta
         < max 2 (verPos (minimum_video_settings (card s))) \<or>
       verPos (status_video_settings (card s)) + delta
         > verPos (maximum_video_settings (card s))) \<longrightarrow>
      kc_adjust_capture_vertical_offset delta s = (False, s)) \<and>
   kc_adjust_capture_vertical_offset 0 s = (True, s) \<and>
   (issued (card (snd (kc_adjust_capture_vertical_offset delta s))) = issued (card s) \<or>
    issued (card (snd (kc_adjust_capture_vertical_offset delta s))) =
      issued (card s) @ [RGBSetVerPosition (verPos (status_video_settings (card s)) + delta)] \<and>
    max 2 (verPos (minimum_video_settings (card s)))
      \<le> verPos (status_video_settings (card s)) + delta \<and>
    verPos (status_video_settings (card s)) + delta
      \<le> verPos (maximum_video_settings (card s)))"
proof (intro conjI impI)
  assume "delta \<noteq> 0 \<and>
      (verPos (status_video_settings (card s)) + delta
         < max 2 (verPos (minimum_video_settings (card s))) \<or>
       verPos (status_video_settings (card s)) + delta
         > verPos (maximum_video_settings (card s)))"
  then show "kc_adjust_capture_vertical_offset delta s = (False, s)"
    by (simp add: kc_adjust_capture_vertical_offset_def Let_def)
next
  show "kc_adjust_capture_vertical_offset 0 s = (True, s)"
    by (simp add: kc_adjust_capture_vertical_offset_def)
next
  show "issued (card (snd (kc_adjust_capture_vertical_offset delta s))) = issued (card s) \<or>
    issued (card (snd (kc_adjust_capture_vertical_offset delta s))) =
      issued (card s) @ [RGBSetVerPosition (verPos (status_video_settings (card s)) + delta)] \<and>
    max 2 (verPos (minimum_video_settings (card s)))
      \<le> verPos (status_video_settings (card s)) + delta \<and>
    verPos (status_video_settings (card s)) + delta
      \<le> verPos (maximum_video_settings (card s))"
    by (auto simp: kc_adjust_capture_vertical_offset_def Let_def rgb_def split: prod.splits)
qed

theorem adjust_vertical_offset_guard_witness:
  "kc_adjust_capture_vertical_offset (- 1) low_verpos_demo = (False, low_verpos_demo) \<and>
   kc_adjust_capture_vertical_offset 1 low_verpos_demo = (False, low_verpos_demo) \<and>
   kc_adjust_capture_vertical_offset 1300 low_verpos_demo = (False, low_verpos_demo)"
proof -
  have v: "verPos (status_video_settings (card low_verpos_demo)) = 0"
    "verPos (minimum_video_settings (card low_verpos_demo)) = 0"
    "verPos (maximum_video_settings (card low_verpos_demo)) = 1200"
    by (simp_all add: low_verpos_demo_def initial_capture_def card_800x600_def zero_video_def)
  from adjust_vertical_offset_guard [of "- 1" low_verpos_demo]
       adjust_vertical_offset_guard [of 1 low_verpos_demo]
       adjust_vertical_offset_guard [of 1300 low_verpos_demo] v
  show ?thesis by simp
qed

text \<open>
  The claim as stated fails twice on the unit that knows a vertical position of 1 for
  800 x 600 and whose card reports the position 0: a zero \<open>delta\<close> returns \<open>True\<close> although
  the position stays below 2, and applying the stored parameters sends the position 1.
\<close>

theorem ver_position_below_2_counterexample:
  "verPos (status_video_settings (card low_verpos_demo)) + 0
     < max 2 (verPos (minimum_video_settings (card low_verpos_demo))) \<and>
   kc_adjust_capture_vertical_offset 0 low_verpos_demo = (True, low_verpos_demo) \<and>
   ver_positions (issued (card (snd (kc_apply_mode_parameters res_800x600 low_verpos_demo)))) = [1]"
  by (simp add: kc_adjust_capture_vertical_offset_def
      kc_apply_mode_parameters_def Let_def issued_rgb_all ver_positions_append
      mode_parameter_calls_def kc_mode_params_for_resolution_def low_verpos_demo_def
      initial_capture_def card_800x600_def mode_800x600_def zero_video_def)

section \<open>Theorems: the output resolution\<close>

lemma output_resolution_bpp: "bpp (ks_output_resolution g recording cap sc) = 32"
  by (simp add: ks_output_resolution_def OUTPUT_BIT_DEPTH_def Let_def split: option.splits)

lemma output_resolution_height:
  "MIN_OUTPUT_HEIGHT g \<le> MAX_OUTPUT_HEIGHT g \<Longrightarrow>
   MIN_OUTPUT_HEIGHT g \<le> h (ks_output_resolution g None cap sc) \<and>
   h (ks_output_resolution g None cap sc) \<le> MAX_OUTPUT_HEIGHT g"
  by (simp add: ks_output_resolution_def Let_def)

lemma output_resolution_wide:
  "\<not> FORCE_BASE_RESOLUTION sc \<Longrightarrow> \<not> FORCE_SCALING sc \<Longrightarrow>
   w (capture_resolution cap) > MAX_OUTPUT_WIDTH g \<Longrightarrow>
   w (ks_output_resolution g None cap sc) = MAX_OUTPUT_HEIGHT g"
  by (simp add: ks_output_resolution_def Let_def)

text \<open>
  C4, evaluated where the maximal width and height differ (1920 and 1080). A capture of
  800 x 600 tripled gives 2400 x 1800; the width exceeds the maximal width and
  \<^verbatim>\<open>ks_output_resolution\<close> returns the width 1080, the maximal height, not 1920. The
  height is clamped to 1080 and the depth is 32.
\<close>

theorem output_resolution_width_slip:
  "ks_output_resolution globals_demo None (initial_capture card_800x600) scaler_times_3 =
     \<lparr>w = 1080, h = 1080, bpp = 32\<rparr>"
  by (simp add: ks_output_resolution_def Let_def globals_demo_def scaler_times_3_def
      initial_scaler_def capture_resolution_def initial_capture_def card_800x600_def
      OUTPUT_BIT_DEPTH_def)

section \<open>Theorems: the colour conversion\<close>


text \<open>
  On its own, the function gives a frame of 32 bits the conversion from RGB565: the
  assignment for 32 bits is overwritten by the \<^verbatim>\<open>else\<close> of the test for 24 bits. No
  frame of that depth reaches the function, as the normalisation step shows.
\<close>

lemma convert_32bpp_on_its_own:
  "s_convert_frame_to_bgra True RGB_PIXELFORMAT_888 False frame_32bpp = Inr CV_BGR5652BGRA"
  by (simp add: s_convert_frame_to_bgra_def Let_def frame_32bpp_def res_640x480_def)




section \<open>Theorems: the scaling filter for a name\<close>

lemma scaler_index_from_none:
  "nm \<notin> name ` set fs \<Longrightarrow> scaler_index_from fs i nm = None"
  by (induction fs arbitrary: i) auto

lemma scaler_index_from_some:
  "nm \<in> name ` set fs \<Longrightarrow>
   \<exists>k < length fs. scaler_index_from fs i nm = Some (i + k) \<and> name (fs ! k) = nm \<and>
      (\<forall>j < k. name (fs ! j) \<noteq> nm)"
proof (induction fs arbitrary: i)
  case Nil
  then show ?case by simp
next
  case (Cons f fs)
  show ?case
  proof (cases "name f = nm")
    case True
    then show ?thesis by (intro exI [of _ 0]) simp
  next
    case False
    with Cons.prems have "nm \<in> name ` set fs" by auto
    from Cons.IH [OF this, of "Suc i"] obtain k where k: "k < length fs"
      "scaler_index_from fs (Suc i) nm = Some (Suc i + k)" "name (fs ! k) = nm"
      "\<forall>j < k. name (fs ! j) \<noteq> nm"
      by blast
    have "\<forall>j < Suc k. name ((f # fs) ! j) \<noteq> nm"
      using False k(4) by (auto simp: less_Suc_eq_0_disj)
    with False k show ?thesis
      by (intro exI [of _ "Suc k"]) simp
  qed
qed

lemma SCALING_FILTERS_first:
  "SCALING_FILTERS use_opencv \<noteq> [] \<and> name (SCALING_FILTERS use_opencv ! 0) = ''Nearest''"
  by (simp add: SCALING_FILTERS_def)

text \<open>
  C10. For every name and in both builds of the catalogue, \<^verbatim>\<open>ks_scaler_for_name_string\<close>
  returns without a failed assertion a pointer that is not null and points into the
  catalogue: to the first (and only) filter of exactly that name when the catalogue has
  one, and to the filter at index 0, named Nearest, otherwise.
  \<^verbatim>\<open>ks_set_upscaling_filter\<close> stores that pointer, so an unknown name yields neither an
  error nor a null filter.
\<close>

theorem scaler_for_name_string_total:
  "\<exists>i < length (SCALING_FILTERS use_opencv).
     ks_scaler_for_name_string (SCALING_FILTERS use_opencv) nm = Inr (Some i) \<and>
     ks_set_upscaling_filter (SCALING_FILTERS use_opencv) nm sc =
       Inr (sc\<lparr>UPSCALE_FILTER := Some i\<rparr>) \<and>
     (nm \<in> name ` set (SCALING_FILTERS use_opencv) \<longrightarrow>
        name (SCALING_FILTERS use_opencv ! i) = nm \<and>
        (\<forall>j < i. name (SCALING_FILTERS use_opencv ! j) \<noteq> nm)) \<and>
     (nm \<notin> name ` set (SCALING_FILTERS use_opencv) \<longrightarrow>
        i = 0 \<and> name (SCALING_FILTERS use_opencv ! i) = ''Nearest'')"
proof (cases "nm \<in> name ` set (SCALING_FILTERS use_opencv)")
  case True
  from scaler_index_from_some [OF True, of 0] obtain k where
    k: "k < length (SCALING_FILTERS use_opencv)"
       "scaler_index_from (SCALING_FILTERS use_opencv) 0 nm = Some k"
       "name (SCALING_FILTERS use_opencv ! k) = nm"
       "\<forall>j < k. name (SCALING_FILTERS use_opencv ! j) \<noteq> nm"
    by auto
  have "ks_scaler_for_name_string (SCALING_FILTERS use_opencv) nm = Inr (Some k)"
    using k(2) SCALING_FILTERS_first [of use_opencv]
    by (simp add: ks_scaler_for_name_string_def)
  with True k show ?thesis
    by (intro exI [of _ k]) (simp add: ks_set_upscaling_filter_def)
next
  case False
  have "ks_scaler_for_name_string (SCALING_FILTERS use_opencv) nm = Inr (Some 0)"
    using scaler_index_from_none [OF False, of 0] SCALING_FILTERS_first [of use_opencv]
    by (simp add: ks_scaler_for_name_string_def)
  with False SCALING_FILTERS_first [of use_opencv] show ?thesis
    by (intro exI [of _ 0]) (simp add: ks_set_upscaling_filter_def)
qed

theorem scaler_for_name_string_witness:
  "ks_scaler_for_name_string (SCALING_FILTERS True) ''Cubic'' = Inr (Some 3) \<and>
   name (SCALING_FILTERS True ! 3) = ''Cubic'' \<and>
   ks_scaler_for_name_string (SCALING_FILTERS True) ''Bicubic'' = Inr (Some 0) \<and>
   ks_scaler_for_name_string (SCALING_FILTERS False) ''Cubic'' = Inr (Some 0)"
proof -
  have in1: "''Cubic'' \<in> name ` set (SCALING_FILTERS True)"
    and out1: "''Bicubic'' \<notin> name ` set (SCALING_FILTERS True)"
    and out2: "''Cubic'' \<notin> name ` set (SCALING_FILTERS False)"
    by (simp_all add: SCALING_FILTERS_def)
  from scaler_for_name_string_total [of True "''Cubic''" initial_scaler] in1
  obtain i where i: "i < length (SCALING_FILTERS True)"
    "ks_scaler_for_name_string (SCALING_FILTERS True) ''Cubic'' = Inr (Some i)"
    "name (SCALING_FILTERS True ! i) = ''Cubic''"
    by blast
  from i(1) have "i \<in> {0, 1, 2, 3, 4}"
    by (auto simp: SCALING_FILTERS_def less_Suc_eq numeral_eq_Suc)
  with i(3) have "i = 3"
    by (auto simp: SCALING_FILTERS_def)
  moreover from scaler_for_name_string_total [of True "''Bicubic''" initial_scaler] out1
  have "ks_scaler_for_name_string (SCALING_FILTERS True) ''Bicubic'' = Inr (Some 0)"
    by auto
  moreover from scaler_for_name_string_total [of False "''Cubic''" initial_scaler] out2
  have "ks_scaler_for_name_string (SCALING_FILTERS False) ''Cubic'' = Inr (Some 0)"
    by auto
  ultimately show ?thesis using i by simp
qed

section \<open>Theorems: aliases saved and loaded\<close>

lemma digit_char_props:
  assumes "d < 10"
  shows "is_digit (digit_char d)" and "digit_val (digit_char d) = d"
  using assms by (simp_all add: is_digit_def digit_val_def digit_char_def)

lemma decimal_value_snoc: "decimal_value (xs @ [c]) = decimal_value xs * 10 + digit_val c"
  by (simp add: decimal_value_def)

lemma show_nat_nonempty: "show_nat n \<noteq> []"
  by (subst show_nat.simps) simp

lemma show_nat_digits: "list_all is_digit (show_nat n)"
proof (induction n rule: show_nat.induct)
  case (1 n)
  show ?case
  proof (cases "n < 10")
    case True
    then show ?thesis by (subst show_nat.simps) (simp add: digit_char_props)
  next
    case False
    with 1 show ?thesis by (subst show_nat.simps) (simp add: digit_char_props)
  qed
qed

lemma decimal_value_show_nat: "decimal_value (show_nat n) = n"
proof (induction n rule: show_nat.induct)
  case (1 n)
  show ?case
  proof (cases "n < 10")
    case True
    then show ?thesis
      by (subst show_nat.simps) (simp add: decimal_value_def digit_char_props)
  next
    case False
    with 1 show ?thesis
      by (subst show_nat.simps) (simp add: decimal_value_snoc digit_char_props)
  qed
qed

lemma toUInt_show_nat: "n < 2 ^ 32 \<Longrightarrow> toUInt (show_nat n) = n"
  by (simp add: toUInt_def show_nat_nonempty show_nat_digits decimal_value_show_nat)

lemma is_digit_not_separator:
  "is_digit c \<Longrightarrow> c \<noteq> CHR '','' \<and> c \<noteq> CHR 0x0A"
  by (auto simp: is_digit_def)

lemma show_nat_no_separator:
  "CHR '','' \<notin> set (show_nat n)" "CHR 0x0A \<notin> set (show_nat n)"
  using show_nat_digits [of n] is_digit_not_separator
  by (auto simp: list_all_iff)

lemma split_on_nonempty: "split_on c xs \<noteq> []"
  by (induction xs) (auto split: list.splits)

lemma split_on_absent: "c \<notin> set xs \<Longrightarrow> split_on c xs = [xs]"
  by (induction xs) auto

lemma split_on_first: "c \<notin> set xs \<Longrightarrow> split_on c (xs @ c # ys) = xs # split_on c ys"
  by (induction xs) (auto simp: split_on_nonempty split: list.splits)

lemma alias_line_body: "alias_line a = alias_body a @ [CHR 0x0A]"
  by (simp add: alias_line_def alias_body_def)

lemma alias_body_no_newline: "CHR 0x0A \<notin> set (alias_body a)"
  by (simp add: alias_body_def show_nat_no_separator)

lemma alias_body_nonempty: "alias_body a \<noteq> []"
  by (simp add: alias_body_def show_nat_nonempty)

lemma csv_row_alias_body: "csv_row (alias_body a) = map show_nat (alias_fields a)"
proof -
  have "split_on CHR '','' (alias_body a) =
        [show_nat (w (from a)), show_nat (h (from a)), show_nat (w (to a)),
         show_nat (h (to a)), []]"
    unfolding alias_body_def
    by (simp add: split_on_first show_nat_no_separator
        split_on_first [where ys = "[]", simplified])
  then show ?thesis by (simp add: csv_row_def alias_fields_def)
qed

lemma lines_of_saved_text:
  "filter (\<lambda>l. l \<noteq> []) (split_on (CHR 0x0A) (concat (map alias_line as))) = map alias_body as"
proof (induction as)
  case Nil
  show ?case by simp
next
  case (Cons a as)
  have "split_on (CHR 0x0A) (concat (map alias_line (a # as))) =
        alias_body a # split_on (CHR 0x0A) (concat (map alias_line as))"
    using split_on_first [OF alias_body_no_newline, of a "concat (map alias_line as)"]
    by (simp add: alias_line_body)
  with Cons show ?case by (simp add: alias_body_nonempty)
qed

lemma csv_contents_saved:
  "files d filename = Some (concat (map alias_line as)) \<Longrightarrow>
   csv_contents d filename = map (\<lambda>a. map show_nat (alias_fields a)) as"
  by (simp add: csv_contents_def lines_of_saved_text csv_row_alias_body)

lemma alias_rows_saved:
  "list_all alias_in_range as \<Longrightarrow>
   alias_rows unset (map (\<lambda>a. map show_nat (alias_fields a)) as) acc =
     Some (acc @ map (reloaded unset) as)"
proof (induction as arbitrary: acc)
  case Nil
  show ?case by simp
next
  case (Cons a as)
  from Cons.prems have a: "alias_in_range a" and as: "list_all alias_in_range as" by simp_all
  have step: "alias_rows unset (map show_nat (alias_fields a) # rows) acc =
              alias_rows unset rows (acc @ [reloaded unset a])" for rows
    using a by (simp add: alias_fields_def alias_in_range_def toUInt_show_nat reloaded_def)
  have "alias_rows unset (map (\<lambda>a. map show_nat (alias_fields a)) (a # as)) acc =
        alias_rows unset (map (\<lambda>a. map show_nat (alias_fields a)) as)
          (acc @ [reloaded unset a])"
    by (simp only: list.map step)
  with Cons.IH [OF as, of "acc @ [reloaded unset a]"] show ?case by simp
qed

lemma alias_fields_reloaded: "alias_fields (reloaded unset a) = alias_fields a"
  by (simp add: alias_fields_def reloaded_def)

lemma temp_name_differs: "filename @ ''.tmp'' \<noteq> filename"
proof
  assume "filename @ ''.tmp'' = filename"
  then have "length (filename @ ''.tmp'') = length filename" by simp
  then show False by simp
qed

lemma save_aliases_file:
  assumes "kc_save_aliases filename s d = (True, s1, d1)"
  shows "files d1 filename = Some (concat (map alias_line (ALIASES s)))" and "s1 = s"
  using assms temp_name_differs [of filename]
  by (auto simp: kc_save_aliases_def Let_def split: if_splits)

lemma ALIASES_load:
  assumes "filename \<noteq> []" and "alias_rows unset (csv_contents d filename) [] = Some as"
  shows "kc_load_aliases unset filename automaticCall t d =
           (True, snd (kc_load_aliases unset filename automaticCall t d))"
    and "ALIASES (snd (kc_load_aliases unset filename automaticCall t d)) =
           sort_key (\<lambda>a. w (to a) * h (to a)) as"
  using assms
  by (simp_all add: kc_load_aliases_def Let_def kc_broadcast_aliases_to_gui_def ALIASES_update)

text \<open>The line written for the alias from 800 x 600 to 1024 x 768.\<close>

lemma alias_line_demo:
  "alias_line \<lparr>from = res_800x600, to = res_1024x768\<rparr> = ''800,600,1024,768,'' @ [CHR 0x0A]"
  by code_simp

text \<open>A row of three fields takes the loader to its error path.\<close>

lemma load_aliases_malformed_row:
  "kc_load_aliases 0 ''a.vcsa'' True (initial_capture card_800x600)
     (empty_disk\<lparr>files := (files empty_disk)(''a.vcsa'' := Some (''800,600,1024'' @ [CHR 0x0A]))\<rparr>) =
   (False, (initial_capture card_800x600)
      \<lparr>outcalls := [kd_show_headless_error_message ''Data was not loaded'']\<rparr>)"
  by (simp add: kc_load_aliases_def csv_contents_def csv_row_def empty_disk_def
      initial_capture_def)

text \<open>
  C8. For every list of aliases whose fields fit \<^verbatim>\<open>unsigned int\<close>, every non-empty file
  name and every disk on which \<^verbatim>\<open>kc_save_aliases\<close> succeeds, loading the saved file into
  any state of the unit succeeds, that is, no row takes the malformed-row path, and the
  aliases then held are those that were saved, sorted by the area of the target: the same
  multiset of source and target sizes. Each saved line is read as a row of exactly four
  fields whose values are the four numbers of its alias, hence positive when those are.
\<close>

theorem save_load_aliases_roundtrip:
  assumes "list_all alias_in_range (ALIASES s)"
    and "filename \<noteq> []"
    and "kc_save_aliases filename s d = (True, s1, d1)"
  shows "fst (kc_load_aliases unset filename automaticCall t d1) \<and>
         mset (map alias_fields (ALIASES (snd (kc_load_aliases unset filename automaticCall t d1)))) =
           mset (map alias_fields (ALIASES s)) \<and>
         sorted (map (\<lambda>a. w (to a) * h (to a))
           (ALIASES (snd (kc_load_aliases unset filename automaticCall t d1)))) \<and>
         map (map toUInt) (csv_contents d1 filename) = map alias_fields (ALIASES s) \<and>
         list_all (\<lambda>row. length row = 4) (csv_contents d1 filename) \<and>
         (list_all (\<lambda>a. list_all (\<lambda>n. 0 < n) (alias_fields a)) (ALIASES s) \<longrightarrow>
            list_all (\<lambda>row. list_all (\<lambda>f. 0 < toUInt f) row) (csv_contents d1 filename))"
proof -
  let ?as = "ALIASES s"
  have saved: "files d1 filename = Some (concat (map alias_line ?as))"
    using save_aliases_file(1) [OF assms(3)] .
  have rows: "csv_contents d1 filename = map (\<lambda>a. map show_nat (alias_fields a)) ?as"
    using csv_contents_saved [OF saved] .
  have parsed: "alias_rows unset (csv_contents d1 filename) [] = Some (map (reloaded unset) ?as)"
    using alias_rows_saved [OF assms(1), of unset "[]"] by (simp add: rows)
  note load = ALIASES_load [OF assms(2) parsed, of automaticCall t]
  have ok: "fst (kc_load_aliases unset filename automaticCall t d1)"
    using load(1) by (metis fst_conv)
  have perm: "mset (map alias_fields
        (ALIASES (snd (kc_load_aliases unset filename automaticCall t d1)))) =
      mset (map alias_fields ?as)"
    by (simp add: load(2) multiset.map_comp comp_def alias_fields_reloaded)
  have srt: "sorted (map (\<lambda>a. w (to a) * h (to a))
        (ALIASES (snd (kc_load_aliases unset filename automaticCall t d1))))"
    by (simp add: load(2))
  have fields: "map (map toUInt) (csv_contents d1 filename) = map alias_fields ?as"
  proof -
    have "map toUInt (map show_nat (alias_fields a)) = alias_fields a" if "a \<in> set ?as" for a
    proof -
      from that assms(1) have "alias_in_range a" by (simp add: list_all_iff)
      then show ?thesis
        by (simp add: alias_in_range_def alias_fields_def toUInt_show_nat)
    qed
    then show ?thesis by (simp add: rows)
  qed
  have four: "list_all (\<lambda>row. length row = 4) (csv_contents d1 filename)"
    by (simp add: rows list_all_iff alias_fields_def)
  have pos: "list_all (\<lambda>row. list_all (\<lambda>f. 0 < toUInt f) row) (csv_contents d1 filename)"
    if "list_all (\<lambda>a. list_all (\<lambda>n. 0 < n) (alias_fields a)) ?as"
  proof -
    have "list_all (\<lambda>row. list_all (\<lambda>n. 0 < n) row) (map (map toUInt) (csv_contents d1 filename))"
      using that by (simp add: fields list_all_iff)
    then show ?thesis by (simp add: list_all_iff)
  qed
  from ok perm srt fields four pos show ?thesis by blast
qed

theorem save_load_aliases_roundtrip_witness:
  "list_all alias_in_range (ALIASES alias_demo) \<and>
   fst (kc_save_aliases ''aliases.vcsa'' alias_demo empty_disk) \<and>
   fst (kc_load_aliases 0 ''aliases.vcsa'' True (initial_capture card_800x600)
          (snd (snd (kc_save_aliases ''aliases.vcsa'' alias_demo empty_disk)))) \<and>
   map (map toUInt)
     (csv_contents (snd (snd (kc_save_aliases ''aliases.vcsa'' alias_demo empty_disk)))
        ''aliases.vcsa'') = [[800, 600, 1024, 768]]"
proof -
  have rng: "list_all alias_in_range (ALIASES alias_demo)"
    by (simp add: alias_demo_def alias_in_range_def alias_fields_def res_800x600_def
        res_1024x768_def)
  have ok: "fst (kc_save_aliases ''aliases.vcsa'' alias_demo empty_disk)"
    by (simp add: kc_save_aliases_def Let_def empty_disk_def)
  then have sv: "kc_save_aliases ''aliases.vcsa'' alias_demo empty_disk =
      (True, fst (snd (kc_save_aliases ''aliases.vcsa'' alias_demo empty_disk)),
       snd (snd (kc_save_aliases ''aliases.vcsa'' alias_demo empty_disk)))"
    by (cases "kc_save_aliases ''aliases.vcsa'' alias_demo empty_disk") simp
  have ne: "''aliases.vcsa'' \<noteq> []" by simp
  have fs: "map alias_fields (ALIASES alias_demo) = [[800, 600, 1024, 768]]"
    by (simp add: alias_demo_def alias_fields_def res_800x600_def res_1024x768_def)
  from save_load_aliases_roundtrip [OF rng ne sv, of 0 True "initial_capture card_800x600"]
    rng ok fs
  show ?thesis by simp
qed

end
